theory Spec2Isabelle
  imports Main
begin

text \<open>
  The photo-sharing front end: the validation of what is sent to the server, the gallery
  with its likes and dislikes, the two batch uploaders, the retry of failed uploads and
  the delete button of the room page. Every function of the sources is a function here,
  under its own name. The server is not part of the sources: what it answers is a
  parameter of each model, a value \<open>thrown + 'a\<close> with \<open>Inl\<close> for a call that throws. Calls
  that only set what a component displays (the progress, the name of the current file) or
  write to the console are left out.
\<close>

section \<open>JavaScript strings\<close>

text \<open>
  A JavaScript string is a sequence of UTF-16 code units: \<open>s.length\<close> counts code
  units, \<open>===\<close> compares them one by one and a character class of a regular expression
  without the \<open>u\<close> flag tests one code unit. A string is therefore a list of code units,
  each a natural number. \<open>str\<close> embeds an ASCII literal; the Korean literals of the
  sources are written out as their code units.
\<close>

type_synonym js_string = "nat list"

definition str :: "string \<Rightarrow> js_string" where
  "str s = map of_char s"

text \<open>\<open>s.includes(pat)\<close>: \<open>pat\<close> occurs in \<open>s\<close> as a contiguous block.\<close>

fun js_includes :: "js_string \<Rightarrow> js_string \<Rightarrow> bool" where
  "js_includes [] pat = (pat = [])"
| "js_includes (c # cs) pat = (take (length pat) (c # cs) = pat \<or> js_includes cs pat)"

text \<open>\<open>xs.slice(i, j)\<close> for \<open>0 \<le> i \<le> j\<close>: the elements at the indices \<open>i, ..., j - 1\<close>
  that exist.\<close>

definition slice :: "'a list \<Rightarrow> nat \<Rightarrow> nat \<Rightarrow> 'a list" where
  "slice xs i j = take (j - i) (drop i xs)"

section \<open>Input validation (services/api.ts, \<open>validateInput\<close>)\<close>

text \<open>The class \<open>[0-9a-f]\<close> under the \<open>i\<close> flag, and the class of the user-name
  expression: the Hangul syllables U+AC00 to U+D7A3, \<open>a-z\<close>, \<open>A-Z\<close>, \<open>0-9\<close>, \<open>.\<close>, \<open>_\<close>
  and \<open>-\<close>.\<close>

definition is_hex :: "nat \<Rightarrow> bool" where
  "is_hex c = ((48 \<le> c \<and> c \<le> 57) \<or> (97 \<le> c \<and> c \<le> 102) \<or> (65 \<le> c \<and> c \<le> 70))"

definition is_name_char :: "nat \<Rightarrow> bool" where
  "is_name_char c =
     ((44032 \<le> c \<and> c \<le> 55203) \<or> (97 \<le> c \<and> c \<le> 122) \<or> (65 \<le> c \<and> c \<le> 90)
      \<or> (48 \<le> c \<and> c \<le> 57) \<or> c = 46 \<or> c = 95 \<or> c = 45)"

text \<open>Groups of hexadecimal digits of the given lengths, separated by \<open>-\<close> (code unit 45),
  anchored at both ends.\<close>

fun hex_groups :: "nat list \<Rightarrow> js_string \<Rightarrow> bool" where
  "hex_groups [] s = (s = [])"
| "hex_groups [n] s = (length s = n \<and> list_all is_hex s)"
| "hex_groups (n # m # ns) s =
     (n \<le> length s \<and> list_all is_hex (take n s) \<and>
      (case drop n s of [] \<Rightarrow> False | c # rest \<Rightarrow> c = 45 \<and> hex_groups (m # ns) rest))"

text \<open>\<open>/^[0-9a-f]{8}-[0-9a-f]{4}-[0-9a-f]{4}-[0-9a-f]{4}-[0-9a-f]{12}$/i.test(roomId)\<close>\<close>

definition validateInput_roomId :: "js_string \<Rightarrow> bool" where
  "validateInput_roomId roomId = hex_groups [8, 4, 4, 4, 12] roomId"

text \<open>\<open>userName.length >= 2 && userName.length <= 50\<close> and every code unit in the class,
  at least one (\<open>^[...]+$\<close>).\<close>

definition validateInput_userName :: "js_string \<Rightarrow> bool" where
  "validateInput_userName userName =
     (length userName \<ge> 2 \<and> length userName \<le> 50 \<and> userName \<noteq> [] \<and> list_all is_name_char userName)"

text \<open>The browser's \<open>File\<close>: the fields the code reads.\<close>

record File =
  file_name :: js_string
  file_size :: nat
  file_type :: js_string

record validation =
  valid :: bool
  error :: "js_string option"

definition allowedTypes :: "js_string list" where
  "allowedTypes = [str ''image/jpeg'', str ''image/jpg'', str ''image/png'', str ''image/gif'',
                   str ''image/webp'']"

definition maxSize :: nat where
  "maxSize = 10 * 1024 * 1024"

text \<open>\<open>validateInput.file\<close>; the last check looks for \<open>..\<close>, \<open>/\<close> and the backslash, which
  is the code unit 92.\<close>

definition validateInput_file :: "File \<Rightarrow> validation" where
  "validateInput_file file =
     (if file_type file \<notin> set allowedTypes then
        \<lparr>valid = False,
         error = Some (str ''Invalid file type. Only JPEG, PNG, GIF, and WebP are allowed.'')\<rparr>
      else if file_size file > maxSize then
        \<lparr>valid = False, error = Some (str ''File too large. Maximum size is 10MB.'')\<rparr>
      else if js_includes (file_name file) (str ''..'') \<or> js_includes (file_name file) (str ''/'')
              \<or> js_includes (file_name file) [92] then
        \<lparr>valid = False, error = Some (str ''Invalid filename.'')\<rparr>
      else \<lparr>valid = True, error = None\<rparr>)"

section \<open>What a request can throw\<close>

text \<open>
  A thrown value is an object: a plain \<open>Error\<close> (no \<open>response\<close>) or the error of the HTTP
  client, which carries the response when the server answered. \<open>detail\<close> is
  \<open>response.data?.detail\<close>. \<open>a || b\<close> on strings takes \<open>b\<close> when \<open>a\<close> is undefined or
  empty.
\<close>

record http_response =
  status :: int
  detail :: "js_string option"

record thrown =
  response :: "http_response option"
  message :: "js_string option"

definition Error :: "js_string \<Rightarrow> thrown" where
  "Error msg = \<lparr>response = None, message = Some msg\<rparr>"

definition or_else :: "js_string option \<Rightarrow> js_string option \<Rightarrow> js_string option" where
  "or_else a b = (case a of None \<Rightarrow> b | Some s \<Rightarrow> (if s = [] then b else Some s))"

section \<open>Photos and the gallery (components/PhotoGallery.tsx)\<close>

record Photo =
  photo_id :: js_string
  room_id :: js_string
  filename :: js_string
  original_filename :: js_string
  uploader_name :: js_string
  file_path :: js_string
  thumbnail_path :: "js_string option"
  photo_file_size :: "nat option"
  mime_type :: "js_string option"
  taken_at :: "js_string option"
  uploaded_at :: js_string
  like_count :: int
  dislike_count :: int
  user_liked :: "bool option"
  user_disliked :: "bool option"

text \<open>The component's state that the handlers read and write.\<close>

record gallery =
  userLikes :: "js_string set"
  userDislikes :: "js_string set"
  localPhotos :: "Photo list"

text \<open>\<open>localPhotos.filter(photo => photo.dislike_count === 0)\<close>\<close>

definition visiblePhotos :: "Photo list \<Rightarrow> Photo list" where
  "visiblePhotos photos = filter (\<lambda>photo. dislike_count photo = 0) photos"

text \<open>
  \<open>likeApi.toggleLike\<close> and \<open>dislikeApi.toggleDislike\<close> check the photo id and the user name
  and then post; \<open>resp\<close> is what the server answers when the request is sent.
\<close>

definition likeApi_toggleLike :: "(thrown + unit) \<Rightarrow> js_string \<Rightarrow> js_string \<Rightarrow> thrown + unit" where
  "likeApi_toggleLike resp photoId user_name =
     (if \<not> validateInput_roomId photoId then Inl (Error (str ''Invalid photo ID format''))
      else if \<not> validateInput_userName user_name then Inl (Error (str ''Invalid username''))
      else resp)"

definition dislikeApi_toggleDislike :: "(thrown + unit) \<Rightarrow> js_string \<Rightarrow> js_string \<Rightarrow> thrown + unit" where
  "dislikeApi_toggleDislike resp photoId user_name =
     (if \<not> validateInput_roomId photoId then Inl (Error (str ''Invalid photo ID format''))
      else if \<not> validateInput_userName user_name then Inl (Error (str ''Invalid username''))
      else resp)"

text \<open>\<open>new Set(prev)\<close>, then \<open>delete\<close> when the element is there and \<open>add\<close> otherwise.\<close>

definition toggle_member :: "js_string \<Rightarrow> js_string set \<Rightarrow> js_string set" where
  "toggle_member x S = (if x \<in> S then S - {x} else insert x S)"

text \<open>
  \<open>handleLike\<close> is made anew by every render of the component and closes over the
  \<open>userLikes\<close> and the \<open>userName\<close> of that render: \<open>rendered\<close> is that \<open>userLikes\<close>, and
  \<open>userName\<close> is \<open>localStorage.getItem('userName') || ''\<close>. The state \<open>g\<close> is the one the
  two updater functions receive as \<open>prev\<close> once the request has been answered. The mark is
  toggled in \<open>prev\<close>; the direction of the counter is read from
  \<open>userLikes.has(photoId)\<close>, the set of the render. An empty name and a failed request
  leave the state as it is (an alert is shown).
\<close>

definition handleLike :: "js_string \<Rightarrow> js_string set \<Rightarrow> (thrown + unit) \<Rightarrow> js_string \<Rightarrow> gallery \<Rightarrow> gallery" where
  "handleLike userName rendered resp photoId g =
     (if userName = [] then g
      else case likeApi_toggleLike resp photoId userName of
        Inl e \<Rightarrow> g
      | Inr u \<Rightarrow>
          g\<lparr>userLikes := toggle_member photoId (userLikes g),
            localPhotos :=
              map (\<lambda>photo.
                     if photo_id photo = photoId then
                       photo\<lparr>like_count :=
                               (if photoId \<in> rendered then like_count photo - 1
                                else like_count photo + 1)\<rparr>
                     else photo)
                  (localPhotos g)\<rparr>)"

text \<open>\<open>handleDislike\<close>, in the same way, with the \<open>userDislikes\<close> of its render.\<close>

definition handleDislike :: "js_string \<Rightarrow> js_string set \<Rightarrow> (thrown + unit) \<Rightarrow> js_string \<Rightarrow> gallery \<Rightarrow> gallery" where
  "handleDislike userName rendered resp photoId g =
     (if userName = [] then g
      else case dislikeApi_toggleDislike resp photoId userName of
        Inl e \<Rightarrow> g
      | Inr u \<Rightarrow>
          g\<lparr>userDislikes := toggle_member photoId (userDislikes g),
            localPhotos :=
              map (\<lambda>photo.
                     if photo_id photo = photoId then
                       photo\<lparr>dislike_count :=
                               (if photoId \<in> rendered then dislike_count photo - 1
                                else dislike_count photo + 1)\<rparr>
                     else photo)
                  (localPhotos g)\<rparr>)"

text \<open>
  The two kinds of reaction. \<open>marks k g\<close> is the set a render of the state \<open>g\<close> hands to
  the handler of kind \<open>k\<close>.
\<close>

datatype kind = Like | Dislike

fun marks :: "kind \<Rightarrow> gallery \<Rightarrow> js_string set" where
  "marks Like g = userLikes g"
| "marks Dislike g = userDislikes g"

fun toggle :: "kind \<Rightarrow> js_string \<Rightarrow> js_string set \<Rightarrow> (thrown + unit) \<Rightarrow> js_string \<Rightarrow> gallery \<Rightarrow> gallery" where
  "toggle Like = handleLike"
| "toggle Dislike = handleDislike"

fun active :: "kind \<Rightarrow> gallery \<Rightarrow> js_string \<Rightarrow> bool" where
  "active Like g photoId = (photoId \<in> userLikes g)"
| "active Dislike g photoId = (photoId \<in> userDislikes g)"

fun counter :: "kind \<Rightarrow> Photo \<Rightarrow> int" where
  "counter Like photo = like_count photo"
| "counter Dislike photo = dislike_count photo"

section \<open>Upload sessions and logs (types/index.ts)\<close>

datatype session_status = in_progress | completed | partially_failed | failed

datatype log_status = log_pending | log_uploading | log_success | log_failed | log_retrying

record UploadSession =
  session_id :: js_string
  session_room_id :: js_string
  session_user_name :: js_string
  total_files :: nat
  completed_files :: nat
  failed_files :: nat
  started_at :: js_string
  completed_at :: "js_string option"
  session_status :: session_status

record UploadSessionCreate =
  create_room_id :: js_string
  create_user_name :: js_string
  create_total_files :: nat

text \<open>The body of \<open>uploadSessionApi.updateSession\<close>.\<close>

record UploadSessionUpdate =
  update_completed_files :: nat
  update_failed_files :: nat
  update_status :: session_status
  update_completed_at :: js_string

record UploadLog =
  log_id :: js_string
  log_session_id :: js_string
  log_room_id :: js_string
  log_original_filename :: js_string
  log_file_size :: "nat option"
  log_mime_type :: "js_string option"
  log_uploader_name :: js_string
  log_status :: log_status
  log_photo_id :: "js_string option"
  error_message :: "js_string option"
  retry_count :: nat
  log_started_at :: js_string
  log_completed_at :: "js_string option"

record UploadLogCreate =
  new_session_id :: js_string
  new_room_id :: js_string
  new_original_filename :: js_string
  new_file_size :: nat
  new_mime_type :: js_string
  new_uploader_name :: js_string

record UploadResult =
  result_session_id :: js_string
  result_total_files :: nat
  successful_uploads :: nat
  failed_uploads :: nat
  result_failed_files :: "UploadLog list"

text \<open>
  The server behind \<open>uploadSessionApi\<close>, \<open>uploadLogApi\<close> and \<open>photoApiEnhanced\<close> is a
  parameter: each field is what the server answers to that call, \<open>Inl\<close> when the call
  throws. The first argument of \<open>createLog\<close> and of \<open>uploadPhotoWithLogging\<close> numbers the
  file the call is made for, so that two calls with equal arguments can be answered
  differently (the second upload of the same bytes, say). The upload calls of a batch
  run concurrently: \<open>arrival k\<close> is the time at which the call numbered \<open>k\<close> is answered,
  which decides whose \<open>catch\<close> runs first.
\<close>

record backend =
  createSession :: "UploadSessionCreate \<Rightarrow> thrown + UploadSession"
  createLog :: "nat \<Rightarrow> UploadLogCreate \<Rightarrow> thrown + UploadLog"
  uploadPhotoWithLogging :: "nat \<Rightarrow> js_string \<Rightarrow> File \<Rightarrow> js_string \<Rightarrow> js_string \<Rightarrow> thrown + Photo"
  updateSession :: "js_string \<Rightarrow> UploadSessionUpdate \<Rightarrow> thrown + unit"
  retryFailedUploads_api :: "js_string list \<Rightarrow> thrown + unit"
  getSessionLogs :: "js_string \<Rightarrow> thrown + UploadLog list"
  arrival :: "nat \<Rightarrow> nat"

section \<open>What the uploaders do, as a trace\<close>

text \<open>
  The effects of a batch run that the properties below speak of: a file handed to the
  upload call
  (\<open>Submit\<close>, with what identifies the call), \<open>Promise.allSettled\<close> returning for a batch of
  the given number of calls (\<open>AllSettled\<close>), and the pause \<open>setTimeout(resolve, ms)\<close>
  (\<open>Delay\<close>). The calls of one batch are started one after the other by \<open>batch.map\<close>; the
  trace lists them in that order; the order in which they finish is not part of it.
\<close>

datatype 'r event = Submit 'r | AllSettled nat | Delay nat

section \<open>The batch uploader with logging (\<open>uploadFilesWithLogging\<close>)\<close>

definition BATCH_SIZE :: nat where
  "BATCH_SIZE = 5"

definition BATCH_DELAY :: nat where
  "BATCH_DELAY = 4000"

text \<open>The literal of the fallback message, "unknown error" in Korean.\<close>

definition unknown_error :: js_string where
  "unknown_error = [50508, 32, 49688, 32, 50630, 45716, 32, 50724, 47448]"

text \<open>\<open>error.response?.data?.detail || error.message || '...'\<close>\<close>

definition errorMessage :: "thrown \<Rightarrow> js_string" where
  "errorMessage e =
     (case or_else (or_else (case response e of None \<Rightarrow> None | Some r \<Rightarrow> detail r) (message e))
                   (Some unknown_error) of
        Some m \<Rightarrow> m
      | None \<Rightarrow> unknown_error)"

text \<open>What the callback of \<open>batch.map\<close> returns for one file.\<close>

record outcome =
  success :: bool
  outcome_file :: File
  outcome_log :: UploadLog
  outcome_photo :: "Photo option"
  outcome_error :: "js_string option"

text \<open>An entry of the array \<open>Promise.allSettled\<close> resolves to.\<close>

datatype 'a settled = Fulfilled 'a | Rejected

text \<open>
  The callback: the upload call sits in a \<open>try\<close> whose \<open>catch\<close> returns a value, so the
  promise of the callback is always fulfilled.
\<close>

definition attempt :: "backend \<Rightarrow> js_string \<Rightarrow> js_string \<Rightarrow> nat \<times> File \<times> UploadLog \<Rightarrow> outcome" where
  "attempt srv roomId userName x =
     (case x of (globalIndex, file, log) \<Rightarrow>
        (case uploadPhotoWithLogging srv globalIndex roomId file userName (log_id log) of
           Inr photo \<Rightarrow>
             \<lparr>success = True, outcome_file = file, outcome_log = log,
              outcome_photo = Some photo, outcome_error = None\<rparr>
         | Inl e \<Rightarrow>
             \<lparr>success = False, outcome_file = file, outcome_log = log,
              outcome_photo = None, outcome_error = Some (errorMessage e)\<rparr>))"

text \<open>The variables the loop updates, and the trace.\<close>

record counts =
  completedCount :: nat
  failedCount :: nat
  failedLogs :: "UploadLog list"
  trace :: "(nat \<times> File \<times> js_string) event list"

text \<open>The \<open>forEach\<close> over the settled results.\<close>

fun tally :: "outcome settled \<Rightarrow> counts \<Rightarrow> counts" where
  "tally (Fulfilled v) c =
     (if success v then c\<lparr>completedCount := completedCount c + 1\<rparr>
      else c\<lparr>failedCount := failedCount c + 1\<rparr>)"
| "tally Rejected c = c\<lparr>failedCount := failedCount c + 1\<rparr>"

text \<open>
  \<open>failedLogs.push(log)\<close> runs in the \<open>catch\<close> of each failing call, when the answer to that
  call arrives: the logs a batch pushes are those of its failed calls in the order of
  their arrival, and in the order the calls were started when two answers arrive
  together. \<open>indexed\<close> holds the results of the batch with the global indexes of the calls.
\<close>

definition caught :: "backend \<Rightarrow> (nat \<times> outcome) list \<Rightarrow> UploadLog list" where
  "caught srv indexed =
     map (\<lambda>(k, v). outcome_log v)
         (filter (\<lambda>(k, v). \<not> success v) (sort_key (\<lambda>(k, v). arrival srv k) indexed))"

text \<open>
  One pass of the loop body at index \<open>i\<close>: the batch is \<open>fileLogPairs.slice(i, i + BATCH_SIZE)\<close>,
  the global index of its \<open>k\<close>-th file is \<open>i + k\<close>. The counters are updated by the
  \<open>forEach\<close> that follows \<open>Promise.allSettled\<close>, over the results in the order of the batch.
\<close>

definition batch_step :: "backend \<Rightarrow> js_string \<Rightarrow> js_string \<Rightarrow> (File \<times> UploadLog) list \<Rightarrow> nat \<Rightarrow> counts \<Rightarrow> counts" where
  "batch_step srv roomId userName fileLogPairs i c =
     (let batch = slice fileLogPairs i (i + BATCH_SIZE);
          batchResults = map (\<lambda>(k, file, log). attempt srv roomId userName (i + k, file, log))
                             (enumerate 0 batch);
          c1 = c\<lparr>failedLogs := failedLogs c @ caught srv (enumerate i batchResults),
                 trace := trace c @ map (\<lambda>(k, file, log). Submit (i + k, file, log_id log))
                                        (enumerate 0 batch)
                                @ [AllSettled (length batch)]\<rparr>;
          c2 = fold tally (map Fulfilled batchResults) c1
      in if i + BATCH_SIZE < length fileLogPairs
         then c2\<lparr>trace := trace c2 @ [Delay BATCH_DELAY]\<rparr>
         else c2)"

function batch_loop :: "backend \<Rightarrow> js_string \<Rightarrow> js_string \<Rightarrow> (File \<times> UploadLog) list \<Rightarrow> nat \<Rightarrow> counts \<Rightarrow> counts" where
  "batch_loop srv roomId userName fileLogPairs i c =
     (if i < length fileLogPairs
      then batch_loop srv roomId userName fileLogPairs (i + BATCH_SIZE)
             (batch_step srv roomId userName fileLogPairs i c)
      else c)"
  by pat_completeness auto
termination
  by (relation "measure (\<lambda>(srv, roomId, userName, fileLogPairs, i, c). length fileLogPairs - i)")
     (auto simp: BATCH_SIZE_def)

text \<open>The loop that creates one log per file; the first call that throws ends it.\<close>

fun create_logs :: "backend \<Rightarrow> js_string \<Rightarrow> js_string \<Rightarrow> js_string \<Rightarrow> nat \<Rightarrow> File list \<Rightarrow> thrown + UploadLog list" where
  "create_logs srv sid roomId userName n [] = Inr []"
| "create_logs srv sid roomId userName n (file # files) =
     (case createLog srv n
             \<lparr>new_session_id = sid, new_room_id = roomId, new_original_filename = file_name file,
              new_file_size = file_size file, new_mime_type = file_type file,
              new_uploader_name = userName\<rparr> of
        Inl e \<Rightarrow> Inl e
      | Inr log \<Rightarrow>
          (case create_logs srv sid roomId userName (n + 1) files of
             Inl e \<Rightarrow> Inl e
           | Inr logs \<Rightarrow> Inr (log # logs)))"

text \<open>\<open>failedCount === 0 ? 'completed' : completedCount === 0 ? 'failed' : 'partially_failed'\<close>\<close>

definition finalStatus :: "nat \<Rightarrow> nat \<Rightarrow> session_status" where
  "finalStatus completedCount' failedCount' =
     (if failedCount' = 0 then completed
      else if completedCount' = 0 then failed
      else partially_failed)"

text \<open>The literal "upload session creation failed: " in Korean, and the error the outer
  \<open>catch\<close> throws.\<close>

definition session_failed_prefix :: js_string where
  "session_failed_prefix =
     [50629, 47196, 46300, 32, 49464, 49496, 32, 49373, 49457, 32, 49892, 54056, 58, 32]"

definition rethrow :: "thrown \<Rightarrow> thrown" where
  "rethrow e =
     Error (session_failed_prefix @ (case message e of None \<Rightarrow> str ''undefined'' | Some m \<Rightarrow> m))"

text \<open>
  A finished run: the value the function returns, and the requests it has sent, which
  decide the session the server stores.
\<close>

record run =
  result :: UploadResult
  created :: UploadSessionCreate
  updated :: UploadSessionUpdate
  run_trace :: "(nat \<times> File \<times> js_string) event list"

text \<open>\<open>now\<close> is \<open>new Date().toISOString()\<close> at the time of the update.\<close>

definition uploadFilesWithLogging :: "backend \<Rightarrow> js_string \<Rightarrow> js_string \<Rightarrow> File list \<Rightarrow> js_string \<Rightarrow> thrown + run" where
  "uploadFilesWithLogging srv roomId now files userName =
     (let new_session = \<lparr>create_room_id = roomId, create_user_name = userName,
                         create_total_files = length files\<rparr>
      in case createSession srv new_session of
        Inl e \<Rightarrow> Inl (rethrow e)
      | Inr session \<Rightarrow>
          (case create_logs srv (session_id session) roomId userName 0 files of
             Inl e \<Rightarrow> Inl (rethrow e)
           | Inr logs \<Rightarrow>
               (let fileLogPairs = zip files logs;
                    c = batch_loop srv roomId userName fileLogPairs 0
                          \<lparr>completedCount = 0, failedCount = 0, failedLogs = [], trace = []\<rparr>;
                    patch = \<lparr>update_completed_files = completedCount c,
                             update_failed_files = failedCount c,
                             update_status = finalStatus (completedCount c) (failedCount c),
                             update_completed_at = now\<rparr>
                in case updateSession srv (session_id session) patch of
                  Inl e \<Rightarrow> Inl (rethrow e)
                | Inr u \<Rightarrow>
                    Inr \<lparr>result = \<lparr>result_session_id = session_id session,
                                    result_total_files = length files,
                                    successful_uploads = completedCount c,
                                    failed_uploads = failedCount c,
                                    result_failed_files = failedLogs c\<rparr>,
                         created = new_session, updated = patch, run_trace = trace c\<rparr>)))"

section \<open>Selecting files (\<open>processFiles\<close> of the upload components)\<close>

text \<open>
  \<open>processFiles\<close> checks every chosen file: the valid ones go to \<open>validFiles\<close>, the
  others leave a line "name: error" in \<open>errors\<close>. The selection is replaced only when a
  valid file is among them.
\<close>

fun processFiles :: "File list \<Rightarrow> File list \<times> js_string list" where
  "processFiles [] = ([], [])"
| "processFiles (file # files) =
     (let validation = validateInput_file file;
          rest = processFiles files
      in if valid validation then (file # fst rest, snd rest)
         else (fst rest,
               (file_name file @ str '': '' @
                  (case error validation of None \<Rightarrow> str ''undefined'' | Some m \<Rightarrow> m)) # snd rest))"

definition select_files :: "File list option \<Rightarrow> File list \<Rightarrow> File list option" where
  "select_files selectedFiles files =
     (let validFiles = fst (processFiles files)
      in if length validFiles > 0 then Some validFiles else selectedFiles)"

section \<open>Retrying failed uploads (\<open>retryFailedUploads\<close> of the upload component)\<close>

text \<open>The requests the component can send to the server.\<close>

datatype api_call =
  Call_retryFailedUploads "js_string list"
| Call_getSessionLogs js_string
| Call_uploadPhotoWithLogging js_string File js_string js_string

text \<open>What the user is told: nothing (the early \<open>return\<close>), the alert that no user name is
  stored, the alert "retry finished: \<open>n\<close> succeeded, \<open>m\<close> failed", or the alert of the
  \<open>catch\<close> with the message of what was thrown (\<open>RetryTypeError\<close> when that is the
  \<open>TypeError\<close> of reading a field of \<open>null\<close>).\<close>

datatype retry_alert =
  Nothing
| NoUserName
| RetryFinished nat nat
| RetryFailed "js_string option"
| RetryTypeError

record retry_run =
  alert :: retry_alert
  calls :: "api_call list"

text \<open>
  The loop over the pending logs: its body sets the displayed file name and index, writes
  to the console and increments \<open>retrySuccessCount\<close>; nothing in it throws, so the \<open>catch\<close>
  that increments \<open>retryFailCount\<close> is never entered.
\<close>

fun retry_loop :: "UploadLog list \<Rightarrow> nat \<times> nat \<Rightarrow> nat \<times> nat" where
  "retry_loop [] counters = counters"
| "retry_loop (log # logs) (retrySuccessCount, retryFailCount) =
     retry_loop logs (retrySuccessCount + 1, retryFailCount)"

text \<open>
  \<open>uploadResult\<close> and \<open>uploadSession\<close> are the component's state, \<open>stored\<close> is
  \<open>localStorage.getItem('userName')\<close>. Reading \<open>uploadSession!.id\<close> of a missing session
  throws a \<open>TypeError\<close>, which the \<open>catch\<close> reports.
\<close>

definition retryFailedUploads :: "backend \<Rightarrow> UploadResult option \<Rightarrow> UploadSession option \<Rightarrow> js_string option \<Rightarrow> retry_run" where
  "retryFailedUploads srv uploadResult uploadSession stored =
     (case uploadResult of
        None \<Rightarrow> \<lparr>alert = Nothing, calls = []\<rparr>
      | Some res \<Rightarrow>
          if result_failed_files res = [] then \<lparr>alert = Nothing, calls = []\<rparr>
          else
            (let failedLogIds = map log_id (result_failed_files res)
             in case retryFailedUploads_api srv failedLogIds of
               Inl e \<Rightarrow> \<lparr>alert = RetryFailed (message e),
                          calls = [Call_retryFailedUploads failedLogIds]\<rparr>
             | Inr u \<Rightarrow>
                 if stored = None \<or> stored = Some [] then
                   \<lparr>alert = NoUserName, calls = [Call_retryFailedUploads failedLogIds]\<rparr>
                 else
                   (case uploadSession of
                      None \<Rightarrow> \<lparr>alert = RetryTypeError,
                                 calls = [Call_retryFailedUploads failedLogIds]\<rparr>
                    | Some session \<Rightarrow>
                        (case getSessionLogs srv (session_id session) of
                           Inl e \<Rightarrow>
                             \<lparr>alert = RetryFailed (message e),
                              calls = [Call_retryFailedUploads failedLogIds,
                                       Call_getSessionLogs (session_id session)]\<rparr>
                         | Inr updatedLogs \<Rightarrow>
                             (let pendingLogs = filter (\<lambda>log. log_status log = log_pending) updatedLogs;
                                  counters = retry_loop pendingLogs (0, 0)
                              in \<lparr>alert = RetryFinished (fst counters) (snd counters),
                                  calls = [Call_retryFailedUploads failedLogIds,
                                           Call_getSessionLogs (session_id session)]\<rparr>)))))"

section \<open>The plain upload call (services/api.ts, \<open>sanitizeInput\<close> and \<open>photoApi.uploadPhoto\<close>)\<close>

text \<open>\<open>input.replace(/c/g, r)\<close> for a single code unit \<open>c\<close>.\<close>

definition replace_all :: "nat \<Rightarrow> js_string \<Rightarrow> js_string \<Rightarrow> js_string" where
  "replace_all c r input = concat (map (\<lambda>x. if x = c then r else [x]) input)"

text \<open>The white space and line terminators that \<open>trim\<close> removes at both ends.\<close>

definition is_space :: "nat \<Rightarrow> bool" where
  "is_space c =
     (c \<in> {9, 10, 11, 12, 13, 32, 160, 5760, 8232, 8233, 8239, 8287, 12288, 65279}
      \<or> (8192 \<le> c \<and> c \<le> 8202))"

definition trim :: "js_string \<Rightarrow> js_string" where
  "trim s = rev (dropWhile is_space (rev (dropWhile is_space s)))"

definition sanitizeInput :: "js_string \<Rightarrow> js_string" where
  "sanitizeInput input =
     trim (replace_all 47 (str ''&#x2F;'')
          (replace_all 39 (str ''&#x27;'')
          (replace_all 34 (str ''&quot;'')
          (replace_all 62 (str ''&gt;'')
          (replace_all 60 (str ''&lt;'') input)))))"

text \<open>The form posted to \<open>/photos/{roomId}/upload\<close>.\<close>

record upload_request =
  request_room :: js_string
  request_file :: File
  request_uploader_name :: js_string

text \<open>
  \<open>photoApi.uploadPhoto\<close>: the three checks throw before anything is sent. \<open>post n\<close> is the
  server's answer to the request made for the \<open>n\<close>-th file. The second component lists
  the requests sent.
\<close>

definition photoApi_uploadPhoto :: "(nat \<Rightarrow> upload_request \<Rightarrow> thrown + Photo) \<Rightarrow> nat \<Rightarrow> js_string \<Rightarrow> File \<Rightarrow> js_string \<Rightarrow> (thrown + Photo) \<times> upload_request list" where
  "photoApi_uploadPhoto post n roomId file uploaderName =
     (if \<not> validateInput_roomId roomId then (Inl (Error (str ''Invalid room ID format'')), [])
      else if \<not> validateInput_userName uploaderName then (Inl (Error (str ''Invalid username'')), [])
      else
        (let fileValidation = validateInput_file file
         in if \<not> valid fileValidation then
              (Inl \<lparr>response = None,
                    message = or_else (error fileValidation) (Some (str ''Invalid file''))\<rparr>, [])
            else
              (let formData = \<lparr>request_room = roomId, request_file = file,
                               request_uploader_name = sanitizeInput uploaderName\<rparr>
               in (post n formData, [formData]))))"

section \<open>The plain batch uploader (components/PhotoUpload.tsx, \<open>uploadFilesInBatches\<close>)\<close>

definition BATCH_SIZE_plain :: nat where
  "BATCH_SIZE_plain = 5"

definition BATCH_DELAY_plain :: nat where
  "BATCH_DELAY_plain = 1000"

text \<open>The loop that cuts the files into batches.\<close>

function make_batches :: "File list \<Rightarrow> nat \<Rightarrow> File list list \<Rightarrow> File list list" where
  "make_batches files i batches =
     (if i < length files
      then make_batches files (i + BATCH_SIZE_plain) (batches @ [slice files i (i + BATCH_SIZE_plain)])
      else batches)"
  by pat_completeness auto
termination
  by (relation "measure (\<lambda>(files, i, batches). length files - i)") (auto simp: BATCH_SIZE_plain_def)

text \<open>What the callback of \<open>batch.map\<close> returns for one file.\<close>

record upload_try =
  try_success :: bool
  try_file :: File
  try_error :: "thrown option"

definition attempt_plain :: "(nat \<Rightarrow> upload_request \<Rightarrow> thrown + Photo) \<Rightarrow> js_string \<Rightarrow> js_string \<Rightarrow> nat \<times> File \<Rightarrow> upload_try" where
  "attempt_plain post roomId userName x =
     (case x of (n, file) \<Rightarrow>
        (case fst (photoApi_uploadPhoto post n roomId file userName) of
           Inr photo \<Rightarrow> \<lparr>try_success = True, try_file = file, try_error = None\<rparr>
         | Inl e \<Rightarrow> \<lparr>try_success = False, try_file = file, try_error = Some e\<rparr>))"

text \<open>The Korean literals of the messages: ": the photo is already uploaded", "bad request",
  ": the file is too large (at most 10MB)", ": too many requests. Try again in a while",
  ": security token error. Reload the page", ": upload failed (" and
  "unknown file: processing failed".\<close>

definition msg_duplicate :: js_string where
  "msg_duplicate = [58, 32, 51060, 48120, 32, 50629, 47196, 46300, 46108, 32, 49324, 51652, 51077,
                    45768, 45796]"

definition msg_bad_request :: js_string where
  "msg_bad_request = [51096, 47803, 46108, 32, 50836, 52397]"

definition msg_too_large :: js_string where
  "msg_too_large = [58, 32, 54028, 51068, 32, 53356, 44592, 44032, 32, 45320, 47924, 32, 53373, 45768,
                    45796, 32, 40, 52572, 45824, 32, 49, 48, 77, 66, 41]"

definition msg_too_many :: js_string where
  "msg_too_many = [58, 32, 50836, 52397, 51060, 32, 45320, 47924, 32, 47566, 49845, 45768, 45796, 46,
                   32, 51104, 49884, 32, 54980, 32, 45796, 49884, 32, 49884, 46020, 54644, 51452,
                   49464, 50836]"

definition msg_token :: js_string where
  "msg_token = [58, 32, 48372, 50504, 32, 53664, 53360, 32, 50724, 47448, 46, 32, 54168, 51060, 51648,
                47484, 32, 49352, 47196, 44256, 52840, 54644, 51452, 49464, 50836]"

definition msg_upload_failed :: js_string where
  "msg_upload_failed = [58, 32, 50629, 47196, 46300, 32, 49892, 54056, 32, 40]"

definition msg_unknown_file :: js_string where
  "msg_unknown_file = [50508, 32, 49688, 32, 50630, 45716, 32, 54028, 51068, 58, 32, 52376, 47532, 32,
                       49892, 54056]"

text \<open>\<open>error.response?.status\<close>\<close>

definition status_of :: "thrown \<Rightarrow> int option" where
  "status_of e = (case response e of None \<Rightarrow> None | Some r \<Rightarrow> Some (status r))"

text \<open>The text pushed to \<open>errors\<close> for a file whose call threw \<open>e\<close>.\<close>

definition error_line :: "File \<Rightarrow> thrown \<Rightarrow> js_string" where
  "error_line file e =
     (if status_of e = Some 409 then file_name file @ msg_duplicate
      else if status_of e = Some 400 then
        file_name file @ str '': '' @
          (case or_else (case response e of None \<Rightarrow> None | Some r \<Rightarrow> detail r)
                        (Some msg_bad_request) of
             Some m \<Rightarrow> m
           | None \<Rightarrow> msg_bad_request)
      else if status_of e = Some 413 then file_name file @ msg_too_large
      else if status_of e = Some 429 then file_name file @ msg_too_many
      else if status_of e = Some 419 then file_name file @ msg_token
      else file_name file @ msg_upload_failed @
             (case or_else (message e) (Some unknown_error) of
                Some m \<Rightarrow> m
              | None \<Rightarrow> unknown_error) @ str '')'')"

text \<open>The variables the loop updates, and the trace.\<close>

record summary =
  completedFiles :: nat
  skippedFiles :: nat
  errors :: "js_string list"
  sent :: "File event list"

text \<open>The \<open>forEach\<close> over the settled results. A successful try has no error; a failed one
  has the thrown value.\<close>

fun tally_plain :: "upload_try settled \<Rightarrow> summary \<Rightarrow> summary" where
  "tally_plain (Fulfilled v) s =
     (if try_success v then s\<lparr>completedFiles := completedFiles s + 1\<rparr>
      else
        (case try_error v of
           None \<Rightarrow> s
         | Some e \<Rightarrow>
             if status_of e = Some 409
             then s\<lparr>skippedFiles := skippedFiles s + 1,
                    errors := errors s @ [error_line (try_file v) e]\<rparr>
             else s\<lparr>errors := errors s @ [error_line (try_file v) e]\<rparr>))"
| "tally_plain Rejected s = s\<lparr>errors := errors s @ [msg_unknown_file]\<rparr>"

text \<open>
  One pass of the loop over the batches, at \<open>batchIndex\<close>; \<open>n\<close> counts the files of the
  batches before it and numbers the calls.
\<close>

definition plain_step :: "(nat \<Rightarrow> upload_request \<Rightarrow> thrown + Photo) \<Rightarrow> js_string \<Rightarrow> js_string \<Rightarrow> File list list \<Rightarrow> nat \<Rightarrow> nat \<Rightarrow> summary \<Rightarrow> summary" where
  "plain_step post roomId userName batches batchIndex n s =
     (let batch = batches ! batchIndex;
          batchResults = map (\<lambda>(k, file). attempt_plain post roomId userName (n + k, file))
                             (enumerate 0 batch);
          s1 = s\<lparr>sent := sent s @ map Submit batch @ [AllSettled (length batch)]\<rparr>;
          s2 = fold tally_plain (map Fulfilled batchResults) s1
      in if batchIndex < length batches - 1
         then s2\<lparr>sent := sent s2 @ [Delay BATCH_DELAY_plain]\<rparr>
         else s2)"

function plain_loop :: "(nat \<Rightarrow> upload_request \<Rightarrow> thrown + Photo) \<Rightarrow> js_string \<Rightarrow> js_string \<Rightarrow> File list list \<Rightarrow> nat \<Rightarrow> nat \<Rightarrow> summary \<Rightarrow> summary" where
  "plain_loop post roomId userName batches batchIndex n s =
     (if batchIndex < length batches
      then plain_loop post roomId userName batches (batchIndex + 1)
             (n + length (batches ! batchIndex))
             (plain_step post roomId userName batches batchIndex n s)
      else s)"
  by pat_completeness auto
termination
  by (relation "measure (\<lambda>(post, roomId, userName, batches, batchIndex, n, s). length batches - batchIndex)")
     auto

definition uploadFilesInBatches :: "(nat \<Rightarrow> upload_request \<Rightarrow> thrown + Photo) \<Rightarrow> js_string \<Rightarrow> File list \<Rightarrow> js_string \<Rightarrow> summary" where
  "uploadFilesInBatches post roomId files userName =
     plain_loop post roomId userName (make_batches files 0 []) 0 0
       \<lparr>completedFiles = 0, skippedFiles = 0, errors = [], sent = []\<rparr>"

text \<open>
  The lines of the alert that \<open>handleUpload\<close> shows after the run, each with the number
  it prints: photos uploaded, duplicates skipped, uploads failed. No line at all is the
  fallback text "no new photo to upload".
\<close>

datatype alert_line = Uploaded nat | SkippedDuplicates nat | UploadsFailed nat

definition upload_message :: "summary \<Rightarrow> alert_line list" where
  "upload_message s =
     (if completedFiles s > 0 then [Uploaded (completedFiles s)] else [])
     @ (if skippedFiles s > 0 then [SkippedDuplicates (skippedFiles s)] else [])
     @ (if length (errors s) > skippedFiles s
        then [UploadsFailed (length (errors s) - skippedFiles s)] else [])"

text \<open>\<open>handleUpload\<close>: nothing happens without files; a missing or malformed user name and a
  malformed room id are reported and nothing is uploaded.\<close>

datatype upload_alert =
  NoFiles
| AskName
| BadName
| BadRoom
| Summary "alert_line list" summary

definition handleUpload :: "(nat \<Rightarrow> upload_request \<Rightarrow> thrown + Photo) \<Rightarrow> js_string \<Rightarrow> File list option \<Rightarrow> js_string option \<Rightarrow> upload_alert" where
  "handleUpload post roomId selectedFiles stored =
     (case selectedFiles of
        None \<Rightarrow> NoFiles
      | Some files \<Rightarrow>
          if files = [] then NoFiles
          else
            (case stored of
               None \<Rightarrow> AskName
             | Some userName \<Rightarrow>
                 if userName = [] then AskName
                 else if \<not> validateInput_userName userName then BadName
                 else if \<not> validateInput_roomId roomId then BadRoom
                 else
                   (let s = uploadFilesInBatches post roomId files userName
                    in Summary (upload_message s) s)))"

section \<open>The room page (pages/RoomPage.tsx, \<open>RoomInfo\<close>)\<close>

text \<open>The name the delete button is shown for: the code units U+C774, U+C131, U+C77C.\<close>

definition privileged_name :: js_string where
  "privileged_name = [51060, 49457, 51068]"

text \<open>\<open>localStorage.getItem('userName') || ''\<close>\<close>

definition currentUserName :: "js_string option \<Rightarrow> js_string" where
  "currentUserName stored = (case stored of None \<Rightarrow> [] | Some s \<Rightarrow> s)"

text \<open>The condition under which the button that calls \<open>handleDeleteRoom\<close> is rendered.\<close>

definition showDeleteButton :: "js_string option \<Rightarrow> bool" where
  "showDeleteButton stored = (currentUserName stored = privileged_name)"

text \<open>
  \<open>handleDeleteRoom\<close>: nothing without a loaded room and a room id, nothing when the user
  declines the confirmation; otherwise \<open>roomApi.deleteRoom\<close> checks the room id and sends
  the request, which carries the room id and no user name. \<open>delete\<close> is the server's
  answer. The second component lists the delete requests sent.
\<close>

datatype delete_alert = NoAlert | DeletedAlert | ForbiddenAlert | DeleteFailedAlert

definition handleDeleteRoom :: "(js_string \<Rightarrow> thrown + unit) \<Rightarrow> bool \<Rightarrow> js_string option \<Rightarrow> bool \<Rightarrow> delete_alert \<times> js_string list" where
  "handleDeleteRoom delete room_loaded roomId confirmed =
     (case roomId of
        None \<Rightarrow> (NoAlert, [])
      | Some rid \<Rightarrow>
          if \<not> room_loaded \<or> rid = [] then (NoAlert, [])
          else if \<not> confirmed then (NoAlert, [])
          else if \<not> validateInput_roomId rid then (DeleteFailedAlert, [])
          else
            (case delete rid of
               Inr u \<Rightarrow> (DeletedAlert, [rid])
             | Inl e \<Rightarrow>
                 if status_of e = Some 403 then (ForbiddenAlert, [rid])
                 else (DeleteFailedAlert, [rid])))"

section \<open>Notions used to state the properties\<close>

text \<open>Cutting a list into consecutive pieces of \<open>n\<close> elements, the last one possibly
  shorter.\<close>

function chunks :: "nat \<Rightarrow> 'a list \<Rightarrow> 'a list list" where
  "chunks n xs = (if n = 0 \<or> xs = [] then [] else take n xs # chunks n (drop n xs))"
  by pat_completeness auto
termination
  by (relation "measure (\<lambda>(n, xs). length xs)") auto

text \<open>
  The trace of a run that handles the batches one after the other: the calls of a batch
  are started, all of them are awaited, and a pause of \<open>d\<close> milliseconds follows when
  another batch is left.
\<close>

fun schedule :: "nat \<Rightarrow> 'r list list \<Rightarrow> 'r event list" where
  "schedule d [] = []"
| "schedule d (b # bs) =
     map Submit b @ [AllSettled (length b)] @ (if bs = [] then [] else Delay d # schedule d bs)"

text \<open>The upload calls of a logged run, one per file: the number of the file, the file and
  the id of its log.\<close>

definition requests :: "(File \<times> UploadLog) list \<Rightarrow> (nat \<times> File \<times> js_string) list" where
  "requests fileLogPairs =
     map (\<lambda>(k, file, log). (k, file, log_id log)) (enumerate 0 fileLogPairs)"

text \<open>What the callback returns for each file of a logged run, in the order of the files.\<close>

definition outcomes :: "backend \<Rightarrow> js_string \<Rightarrow> js_string \<Rightarrow> (File \<times> UploadLog) list \<Rightarrow> outcome list" where
  "outcomes srv roomId userName fileLogPairs =
     map (attempt srv roomId userName) (enumerate 0 fileLogPairs)"

text \<open>The answers to the calls of a plain run, in the order of the files, and their three
  kinds: uploaded, rejected as a duplicate (status 409), failed otherwise.\<close>

definition answers :: "(nat \<Rightarrow> upload_request \<Rightarrow> thrown + Photo) \<Rightarrow> js_string \<Rightarrow> js_string \<Rightarrow> File list \<Rightarrow> (thrown + Photo) list" where
  "answers post roomId userName files =
     map (\<lambda>(n, file). fst (photoApi_uploadPhoto post n roomId file userName)) (enumerate 0 files)"

fun is_uploaded :: "thrown + Photo \<Rightarrow> bool" where
  "is_uploaded (Inr photo) = True"
| "is_uploaded (Inl e) = False"

fun is_duplicate :: "thrown + Photo \<Rightarrow> bool" where
  "is_duplicate (Inr photo) = False"
| "is_duplicate (Inl e) = (status_of e = Some 409)"

fun is_failure :: "thrown + Photo \<Rightarrow> bool" where
  "is_failure (Inr photo) = False"
| "is_failure (Inl e) = (status_of e \<noteq> Some 409)"

text \<open>The line of \<open>errors\<close> for a file and the answer to its call: none when it was
  uploaded.\<close>

fun detail_lines :: "File \<times> (thrown + Photo) \<Rightarrow> js_string list" where
  "detail_lines (file, Inr photo) = []"
| "detail_lines (file, Inl e) = [error_line file e]"

text \<open>
  The logs a logged run pushes to \<open>failedLogs\<close>: batch after batch, and within a batch
  in the order in which the failed calls are answered.
\<close>

definition failures :: "backend \<Rightarrow> js_string \<Rightarrow> js_string \<Rightarrow> (File \<times> UploadLog) list \<Rightarrow> UploadLog list" where
  "failures srv roomId userName fileLogPairs =
     concat (map (caught srv)
                 (chunks BATCH_SIZE (enumerate 0 (outcomes srv roomId userName fileLogPairs))))"


fun pauses :: "'r event list \<Rightarrow> nat list" where
  "pauses [] = []"
| "pauses (Submit r # evs) = pauses evs"
| "pauses (AllSettled n # evs) = pauses evs"
| "pauses (Delay d # evs) = d # pauses evs"

text \<open>
  A finished logged run written in terms of the outcomes of its files: what
  \<open>uploadFilesWithLogging\<close> returns once the session, the logs and the session update
  went through.
\<close>

definition run_of :: "backend \<Rightarrow> js_string \<Rightarrow> js_string \<Rightarrow> File list \<Rightarrow> js_string \<Rightarrow> UploadSession \<Rightarrow> UploadLog list \<Rightarrow> run" where
  "run_of srv roomId now files userName session logs =
     (let os = outcomes srv roomId userName (zip files logs);
          done = length (filter success os);
          lost = length (filter (\<lambda>v. \<not> success v) os)
      in \<lparr>result = \<lparr>result_session_id = session_id session,
                      result_total_files = length files,
                      successful_uploads = done,
                      failed_uploads = lost,
                      result_failed_files = failures srv roomId userName (zip files logs)\<rparr>,
          created = \<lparr>create_room_id = roomId, create_user_name = userName,
                     create_total_files = length files\<rparr>,
          updated = \<lparr>update_completed_files = done, update_failed_files = lost,
                     update_status = finalStatus done lost, update_completed_at = now\<rparr>,
          run_trace = schedule BATCH_DELAY (chunks BATCH_SIZE (requests (zip files logs)))\<rparr>)"

text \<open>The kinds of a try of the plain uploader: a rejected duplicate, and the lines it
  leaves in \<open>errors\<close>.\<close>

definition try_dup :: "upload_try \<Rightarrow> bool" where
  "try_dup v = (\<not> try_success v \<and> (case try_error v of None \<Rightarrow> False | Some e \<Rightarrow> status_of e = Some 409))"

definition try_lines :: "upload_try \<Rightarrow> js_string list" where
  "try_lines v = (if try_success v then [] else case try_error v of None \<Rightarrow> [] | Some e \<Rightarrow> [error_line (try_file v) e])"

text \<open>The third check of \<open>validateInput.file\<close> on its own.\<close>

definition unsafe_name :: "js_string \<Rightarrow> bool" where
  "unsafe_name s = (js_includes s (str ''..'') \<or> js_includes s (str ''/'') \<or> js_includes s [92])"

section \<open>Concrete inputs\<close>

text \<open>
  A room, a user, image files \<open>1.png\<close>, \<open>2.png\<close>, ..., and a server that creates sessions
  and logs and stores every upload but the one made for the file numbered 1, which it
  refuses with status 500 and the detail "disk full".
\<close>

definition demo_room :: js_string where
  "demo_room = str ''123e4567-e89b-12d3-a456-426614174000''"

definition demo_user :: js_string where
  "demo_user = str ''kim''"

definition demo_now :: js_string where
  "demo_now = str ''2025-01-01T00:00:09Z''"

definition png :: "nat \<Rightarrow> File" where
  "png n = \<lparr>file_name = [48 + n] @ str ''.png'', file_size = 2048, file_type = str ''image/png''\<rparr>"

definition two_files :: "File list" where
  "two_files = [png 1, png 2]"

definition three_files :: "File list" where
  "three_files = [png 1, png 2, png 3]"

definition seven_files :: "File list" where
  "seven_files = [png 1, png 2, png 3, png 4, png 5, png 6, png 7]"

definition demo_photo :: "js_string \<Rightarrow> File \<Rightarrow> Photo" where
  "demo_photo pid file =
     \<lparr>photo_id = pid, room_id = demo_room, filename = pid @ str ''.png'',
      original_filename = file_name file, uploader_name = demo_user,
      file_path = str ''/uploads/'' @ pid @ str ''.png'', thumbnail_path = None,
      photo_file_size = Some (file_size file), mime_type = Some (file_type file),
      taken_at = None, uploaded_at = str ''2025-01-01T00:00:00Z'', like_count = 0,
      dislike_count = 0, user_liked = None, user_disliked = None\<rparr>"

definition demo_log :: "nat \<Rightarrow> UploadLogCreate \<Rightarrow> UploadLog" where
  "demo_log n c =
     \<lparr>log_id = str ''log-'' @ [48 + n], log_session_id = new_session_id c,
      log_room_id = new_room_id c, log_original_filename = new_original_filename c,
      log_file_size = Some (new_file_size c), log_mime_type = Some (new_mime_type c),
      log_uploader_name = new_uploader_name c, log_status = log_pending, log_photo_id = None,
      error_message = None, retry_count = 0, log_started_at = str ''2025-01-01T00:00:00Z'',
      log_completed_at = None\<rparr>"

definition demo_session :: "UploadSessionCreate \<Rightarrow> UploadSession" where
  "demo_session c =
     \<lparr>session_id = str ''session-1'', session_room_id = create_room_id c,
      session_user_name = create_user_name c, total_files = create_total_files c,
      completed_files = 0, failed_files = 0, started_at = str ''2025-01-01T00:00:00Z'',
      completed_at = None, session_status = in_progress\<rparr>"

definition demo_session_state :: UploadSession where
  "demo_session_state = demo_session \<lparr>create_room_id = demo_room, create_user_name = demo_user,
                                       create_total_files = 2\<rparr>"

definition disk_full :: thrown where
  "disk_full = \<lparr>response = Some \<lparr>status = 500, detail = Some (str ''disk full'')\<rparr>,
                 message = Some (str ''Request failed with status code 500'')\<rparr>"

definition already_there :: thrown where
  "already_there = \<lparr>response = Some \<lparr>status = 409, detail = Some (str ''duplicate'')\<rparr>,
                     message = Some (str ''Request failed with status code 409'')\<rparr>"

definition demo_backend :: backend where
  "demo_backend =
     \<lparr>createSession = (\<lambda>c. Inr (demo_session c)),
      createLog = (\<lambda>n c. Inr (demo_log n c)),
      uploadPhotoWithLogging = (\<lambda>k roomId file userName lid.
         if k = 1 then Inl disk_full else Inr (demo_photo (str ''photo-'' @ [48 + k]) file)),
      updateSession = (\<lambda>sid patch. Inr ()),
      retryFailedUploads_api = (\<lambda>ids. Inr ()),
      getSessionLogs = (\<lambda>sid. Inr []),
      arrival = (\<lambda>k. 0)\<rparr>"

definition log_for :: "nat \<Rightarrow> File \<Rightarrow> UploadLog" where
  "log_for n file =
     demo_log n \<lparr>new_session_id = str ''session-1'', new_room_id = demo_room,
                 new_original_filename = file_name file, new_file_size = file_size file,
                 new_mime_type = file_type file, new_uploader_name = demo_user\<rparr>"

definition two_logs :: "UploadLog list" where
  "two_logs = [log_for 0 (png 1), log_for 1 (png 2)]"

definition seven_pairs :: "(File \<times> UploadLog) list" where
  "seven_pairs = [(png 1, log_for 0 (png 1)), (png 2, log_for 1 (png 2)), (png 3, log_for 2 (png 3)),
                  (png 4, log_for 3 (png 4)), (png 5, log_for 4 (png 5)), (png 6, log_for 5 (png 6)),
                  (png 7, log_for 6 (png 7))]"

definition seven_logs :: "UploadLog list" where
  "seven_logs = map snd seven_pairs"

text \<open>A server on which every upload fails, the answer to the first call coming last.\<close>

definition late_backend :: backend where
  "late_backend = demo_backend\<lparr>uploadPhotoWithLogging := (\<lambda>k roomId file userName lid. Inl disk_full),
                                arrival := (\<lambda>k. if k = 0 then 2 else 1)\<rparr>"


text \<open>A server for the plain uploader: the call for the file numbered 1 is refused as a
  duplicate (status 409), the one for the file numbered 2 fails with status 500.\<close>

definition demo_post :: "nat \<Rightarrow> upload_request \<Rightarrow> thrown + Photo" where
  "demo_post n req =
     (if n = 1 then Inl already_there
      else if n = 2 then Inl disk_full
      else Inr (demo_photo (str ''photo-'' @ [48 + n]) (request_file req)))"

text \<open>A photo with one dislike, given by the user of the gallery that shows it.\<close>

definition demo_photo_id :: js_string where
  "demo_photo_id = str ''0a1b2c3d-0000-4000-8000-00000000000f''"

definition disliked_photo :: Photo where
  "disliked_photo = (demo_photo demo_photo_id (png 1))\<lparr>dislike_count := 1\<rparr>"

definition demo_gallery :: gallery where
  "demo_gallery = \<lparr>userLikes = {}, userDislikes = {demo_photo_id}, localPhotos = [disliked_photo]\<rparr>"

text \<open>A photo with three likes, none of them by the user of the gallery that shows it.\<close>

definition liked_photo :: Photo where
  "liked_photo = (demo_photo demo_photo_id (png 1))\<lparr>like_count := 3\<rparr>"

definition liked_gallery :: gallery where
  "liked_gallery = \<lparr>userLikes = {}, userDislikes = {}, localPhotos = [liked_photo]\<rparr>"

text \<open>An image of acceptable type and size whose name walks up a directory.\<close>

definition traversal_file :: File where
  "traversal_file = \<lparr>file_name = str ''../a.png'', file_size = 2048, file_type = str ''image/png''\<rparr>"

text \<open>
  A finished run with one failed file, and the server's state after the retry request:
  the log of that file is pending again, its error cleared and its retry counted.
\<close>

definition failed_log :: UploadLog where
  "failed_log = (log_for 1 (png 2))\<lparr>log_status := log_failed, error_message := Some (str ''disk full'')\<rparr>"

definition reset_log :: UploadLog where
  "reset_log = (log_for 1 (png 2))\<lparr>log_status := log_pending, error_message := None, retry_count := 1\<rparr>"

definition failed_result :: UploadResult where
  "failed_result = \<lparr>result_session_id = str ''session-1'', result_total_files = 2,
                     successful_uploads = 1, failed_uploads = 1, result_failed_files = [failed_log]\<rparr>"

definition retry_backend :: backend where
  "retry_backend = demo_backend\<lparr>getSessionLogs := (\<lambda>sid. Inr [(log_for 0 (png 1))\<lparr>log_status := log_success\<rparr>, reset_log])\<rparr>"

section \<open>The gallery: visibility and reactions\<close>

lemma toggle_member_twice: "toggle_member x (toggle_member x S) = S"
  by (auto simp: toggle_member_def)

lemma toggle_member_flips: "(x \<in> toggle_member x S) = (x \<notin> S)"
  by (auto simp: toggle_member_def)

lemma api_accepts:
  "validateInput_roomId pid \<Longrightarrow> validateInput_userName u \<Longrightarrow>
   likeApi_toggleLike (Inr ()) pid u = Inr () \<and> dislikeApi_toggleDislike (Inr ()) pid u = Inr ()"
  by (simp add: likeApi_toggleLike_def dislikeApi_toggleDislike_def)

lemma valid_name_nonempty: "validateInput_userName u \<Longrightarrow> u \<noteq> []"
  by (simp add: validateInput_userName_def)

lemma handleLike_sent:
  "u \<noteq> [] \<Longrightarrow> likeApi_toggleLike r pid u = Inr x \<Longrightarrow>
   handleLike u rendered r pid g =
     g\<lparr>userLikes := toggle_member pid (userLikes g),
       localPhotos := map (\<lambda>photo. if photo_id photo = pid then
            photo\<lparr>like_count := (if pid \<in> rendered then like_count photo - 1 else like_count photo + 1)\<rparr>
          else photo) (localPhotos g)\<rparr>"
  by (simp add: handleLike_def)

lemma handleLike_noname: "handleLike [] rendered r pid g = g"
  by (simp add: handleLike_def)

lemma handleLike_failed: "likeApi_toggleLike r pid u = Inl e \<Longrightarrow> handleLike u rendered r pid g = g"
  by (simp add: handleLike_def)

lemma like_map_twice:
  "map (\<lambda>photo. if photo_id photo = pid then photo\<lparr>like_count := (if \<not> b then like_count photo - 1 else like_count photo + 1)\<rparr> else photo)
     (map (\<lambda>photo. if photo_id photo = pid then photo\<lparr>like_count := (if b then like_count photo - 1 else like_count photo + 1)\<rparr> else photo) ps) = ps"
  by (induction ps) auto

text \<open>Two clicks, the second on the handler of the render that shows the state the first
  one left: the state is restored.\<close>

lemma handleLike_twice:
  "handleLike u (userLikes (handleLike u (userLikes g) r pid g)) r pid (handleLike u (userLikes g) r pid g) = g"
proof (cases "u = []")
  case True
  then show ?thesis by (simp add: handleLike_noname)
next
  case False
  show ?thesis
  proof (cases "likeApi_toggleLike r pid u")
    case (Inl e)
    then show ?thesis by (simp add: handleLike_failed)
  next
    case (Inr x)
    show ?thesis
      by (simp add: handleLike_sent [OF False Inr] toggle_member_twice toggle_member_flips like_map_twice del: map_map cong: if_cong)
  qed
qed

lemma handleDislike_sent:
  "u \<noteq> [] \<Longrightarrow> dislikeApi_toggleDislike r pid u = Inr x \<Longrightarrow>
   handleDislike u rendered r pid g =
     g\<lparr>userDislikes := toggle_member pid (userDislikes g),
       localPhotos := map (\<lambda>photo. if photo_id photo = pid then
            photo\<lparr>dislike_count := (if pid \<in> rendered then dislike_count photo - 1 else dislike_count photo + 1)\<rparr>
          else photo) (localPhotos g)\<rparr>"
  by (simp add: handleDislike_def)

lemma handleDislike_noname: "handleDislike [] rendered r pid g = g"
  by (simp add: handleDislike_def)

lemma handleDislike_failed: "dislikeApi_toggleDislike r pid u = Inl e \<Longrightarrow> handleDislike u rendered r pid g = g"
  by (simp add: handleDislike_def)

lemma dislike_map_twice:
  "map (\<lambda>photo. if photo_id photo = pid then photo\<lparr>dislike_count := (if \<not> b then dislike_count photo - 1 else dislike_count photo + 1)\<rparr> else photo)
     (map (\<lambda>photo. if photo_id photo = pid then photo\<lparr>dislike_count := (if b then dislike_count photo - 1 else dislike_count photo + 1)\<rparr> else photo) ps) = ps"
  by (induction ps) auto

lemma handleDislike_twice:
  "handleDislike u (userDislikes (handleDislike u (userDislikes g) r pid g)) r pid
     (handleDislike u (userDislikes g) r pid g) = g"
proof (cases "u = []")
  case True
  then show ?thesis by (simp add: handleDislike_noname)
next
  case False
  show ?thesis
  proof (cases "dislikeApi_toggleDislike r pid u")
    case (Inl e)
    then show ?thesis by (simp add: handleDislike_failed)
  next
    case (Inr x)
    show ?thesis
      by (simp add: handleDislike_sent [OF False Inr] toggle_member_twice toggle_member_flips dislike_map_twice del: map_map cong: if_cong)
  qed
qed

text \<open>A toggle that goes through flips the user's mark and moves the counter of the photo
  by one, in the direction the set of its render gives.\<close>

lemma toggle_once_flips:
  assumes "validateInput_roomId photoId" "validateInput_userName userName"
  shows "active k (toggle k userName rendered (Inr ()) photoId g) photoId = (\<not> active k g photoId)
       \<and> map (counter k) (localPhotos (toggle k userName rendered (Inr ()) photoId g))
         = map (\<lambda>photo. if photo_id photo = photoId
                          then (if photoId \<in> rendered then counter k photo - 1 else counter k photo + 1)
                          else counter k photo) (localPhotos g)"
proof -
  note a = api_accepts [OF assms] valid_name_nonempty [OF assms(2)]
  show ?thesis
  proof (cases k)
    case Like
    then show ?thesis
      using a by (simp add: handleLike_sent [OF a(2) conjunct1 [OF a(1)]] toggle_member_flips)
  next
    case Dislike
    then show ?thesis
      using a by (simp add: handleDislike_sent [OF a(2) conjunct2 [OF a(1)]] toggle_member_flips)
  qed
qed

text \<open>Two toggles, each made by the handler of the render that shows the state it starts
  from, restore the state.\<close>

lemma toggle_twice_fresh:
  "toggle k userName (marks k (toggle k userName (marks k g) resp photoId g)) resp photoId
     (toggle k userName (marks k g) resp photoId g) = g"
  by (cases k) (simp_all add: handleLike_twice handleDislike_twice)

text \<open>
  Two toggles made by the handler of one render, the second click coming before the
  component has rendered the state the first one left: the mark is what it was, and
  the counter of the photo has moved by two.
\<close>

lemma toggle_twice_stale:
  assumes "validateInput_roomId photoId" "validateInput_userName userName"
  shows "active k (toggle k userName rendered (Inr ()) photoId
                     (toggle k userName rendered (Inr ()) photoId g)) photoId = active k g photoId
       \<and> map (counter k) (localPhotos (toggle k userName rendered (Inr ()) photoId
                                          (toggle k userName rendered (Inr ()) photoId g)))
         = map (\<lambda>photo. if photo_id photo = photoId
                          then (if photoId \<in> rendered then counter k photo - 2 else counter k photo + 2)
                          else counter k photo) (localPhotos g)"
proof -
  note t = toggle_once_flips [OF assms, of k rendered]
  have "map (counter k) (localPhotos (toggle k userName rendered (Inr ()) photoId
                                          (toggle k userName rendered (Inr ()) photoId g)))
        = map (\<lambda>photo. if photo_id photo = photoId
                          then (if photoId \<in> rendered then counter k photo - 1 else counter k photo + 1)
                          else counter k photo)
              (localPhotos (toggle k userName rendered (Inr ()) photoId g))"
    using t [of "toggle k userName rendered (Inr ()) photoId g"] by simp
  also have "\<dots> = map (\<lambda>photo. if photo_id photo = photoId
                          then (if photoId \<in> rendered then counter k photo - 2 else counter k photo + 2)
                          else counter k photo) (localPhotos g)"
  proof (cases k)
    case Like
    note a = api_accepts [OF assms] valid_name_nonempty [OF assms(2)]
    show ?thesis unfolding Like
      by (simp add: handleLike_sent [OF a(2) conjunct1 [OF a(1)]] comp_def cong: if_cong)
  next
    case Dislike
    note a = api_accepts [OF assms] valid_name_nonempty [OF assms(2)]
    show ?thesis unfolding Dislike
      by (simp add: handleDislike_sent [OF a(2) conjunct2 [OF a(1)]] comp_def cong: if_cong)
  qed
  finally show ?thesis using t by simp
qed

lemma demo_room_valid: "validateInput_roomId demo_room"
  by (simp add: validateInput_roomId_def demo_room_def str_def is_hex_def)

lemma demo_photo_id_valid: "validateInput_roomId demo_photo_id"
  by (simp add: validateInput_roomId_def demo_photo_id_def str_def is_hex_def)

lemma demo_user_valid: "validateInput_userName demo_user"
  by (simp add: validateInput_userName_def demo_user_def str_def is_name_char_def)

text \<open>
  Claim C1. For every list of photos, a photo is in the visible set the gallery computes
  if and only if it is in the list and its \<open>dislike_count\<close> is 0. In particular a photo
  with \<open>dislike_count\<close> at least 1 is not in the visible set; and when the user who gave
  its only dislike takes it back with \<open>handleDislike\<close> (the handler of the render that
  shows this state), the photo, now with count 0, is in
  the visible set of the new state, whose list holds the same photos as before (nothing
  is uploaded again).
\<close>

theorem visible_iff_no_dislike:
  "(p \<in> set (visiblePhotos photos) \<longleftrightarrow> p \<in> set photos \<and> dislike_count p = 0)
   \<and> (dislike_count p \<ge> 1 \<longrightarrow> p \<notin> set (visiblePhotos photos))
   \<and> (validateInput_roomId (photo_id p) \<and> validateInput_userName userName
        \<and> p \<in> set (localPhotos g) \<and> dislike_count p = 1 \<and> photo_id p \<in> userDislikes g
      \<longrightarrow> p\<lparr>dislike_count := 0\<rparr> \<in> set (visiblePhotos (localPhotos (handleDislike userName (userDislikes g) (Inr ()) (photo_id p) g)))
          \<and> map photo_id (localPhotos (handleDislike userName (userDislikes g) (Inr ()) (photo_id p) g)) = map photo_id (localPhotos g))"
proof (intro conjI impI)
  show "p \<in> set (visiblePhotos photos) \<longleftrightarrow> p \<in> set photos \<and> dislike_count p = 0"
    by (simp add: visiblePhotos_def)
next
  assume "dislike_count p \<ge> 1"
  then show "p \<notin> set (visiblePhotos photos)" by (simp add: visiblePhotos_def)
next
  assume h: "validateInput_roomId (photo_id p) \<and> validateInput_userName userName
        \<and> p \<in> set (localPhotos g) \<and> dislike_count p = 1 \<and> photo_id p \<in> userDislikes g"
  then have a: "userName \<noteq> []" "dislikeApi_toggleDislike (Inr ()) (photo_id p) userName = Inr ()"
    using api_accepts valid_name_nonempty by blast+
  note s = handleDislike_sent [OF a, of "userDislikes g"]
  have m: "x \<in> set xs \<Longrightarrow> f x \<in> set (map f xs)" for x :: Photo and xs f
    by simp
  from h have "p \<in> set (localPhotos g)" by simp
  from m [OF this, of "\<lambda>photo. if photo_id photo = photo_id p then photo\<lparr>dislike_count := dislike_count photo - 1\<rparr> else photo"] h
  show "p\<lparr>dislike_count := 0\<rparr> \<in> set (visiblePhotos (localPhotos (handleDislike userName (userDislikes g) (Inr ()) (photo_id p) g)))"
    by (simp add: s visiblePhotos_def cong: if_cong)
  show "map photo_id (localPhotos (handleDislike userName (userDislikes g) (Inr ()) (photo_id p) g)) = map photo_id (localPhotos g)"
    by (simp add: s comp_def cong: if_cong)
qed

text \<open>The photo of \<open>demo_gallery\<close> is hidden, and shown again after the dislike is taken
  back.\<close>

theorem visible_iff_no_dislike_witness:
  "validateInput_roomId (photo_id disliked_photo) \<and> validateInput_userName demo_user
   \<and> disliked_photo \<in> set (localPhotos demo_gallery) \<and> dislike_count disliked_photo = 1
   \<and> photo_id disliked_photo \<in> userDislikes demo_gallery
   \<and> disliked_photo \<notin> set (visiblePhotos (localPhotos demo_gallery))
   \<and> disliked_photo\<lparr>dislike_count := 0\<rparr>
       \<in> set (visiblePhotos (localPhotos
                 (handleDislike demo_user (userDislikes demo_gallery) (Inr ())
                    (photo_id disliked_photo) demo_gallery)))"
proof -
  have h: "validateInput_roomId (photo_id disliked_photo) \<and> validateInput_userName demo_user
   \<and> disliked_photo \<in> set (localPhotos demo_gallery) \<and> dislike_count disliked_photo = 1
   \<and> photo_id disliked_photo \<in> userDislikes demo_gallery"
    using demo_photo_id_valid demo_user_valid
    by (simp add: disliked_photo_def demo_gallery_def demo_photo_def)
  from h visible_iff_no_dislike [of disliked_photo "localPhotos demo_gallery" demo_user demo_gallery]
  show ?thesis by simp
qed

text \<open>
  Claim C6. Toggling twice in sequence does not always give the counter back. In the
  gallery that shows a photo with three likes, none of them the user's, two clicks on
  the like button of one render (the second before the component has rendered again)
  leave the user's mark as it was and the photo with five likes. In the gallery whose
  photo has the user's one dislike, two such clicks on the dislike button leave the mark
  as it was and the count at -1.
\<close>

theorem toggle_twice_same_render:
  "toggle Like demo_user (marks Like liked_gallery) (Inr ()) demo_photo_id
     (toggle Like demo_user (marks Like liked_gallery) (Inr ()) demo_photo_id liked_gallery)
     = \<lparr>userLikes = {}, userDislikes = {}, localPhotos = [liked_photo\<lparr>like_count := 5\<rparr>]\<rparr>
   \<and> active Like liked_gallery demo_photo_id = False
   \<and> map (counter Like) (localPhotos liked_gallery) = [3]
   \<and> toggle Dislike demo_user (marks Dislike demo_gallery) (Inr ()) demo_photo_id
       (toggle Dislike demo_user (marks Dislike demo_gallery) (Inr ()) demo_photo_id demo_gallery)
     = \<lparr>userLikes = {}, userDislikes = {demo_photo_id},
        localPhotos = [disliked_photo\<lparr>dislike_count := - 1\<rparr>]\<rparr>
   \<and> active Dislike demo_gallery demo_photo_id = True
   \<and> map (counter Dislike) (localPhotos demo_gallery) = [1]"
proof -
  have a: "demo_user \<noteq> []" "dislikeApi_toggleDislike (Inr ()) demo_photo_id demo_user = Inr ()"
    "likeApi_toggleLike (Inr ()) demo_photo_id demo_user = Inr ()"
    using demo_user_valid demo_photo_id_valid api_accepts valid_name_nonempty by blast+
  have l: "toggle Like demo_user (marks Like liked_gallery) (Inr ()) demo_photo_id
     (toggle Like demo_user (marks Like liked_gallery) (Inr ()) demo_photo_id liked_gallery)
     = \<lparr>userLikes = {}, userDislikes = {}, localPhotos = [liked_photo\<lparr>like_count := 5\<rparr>]\<rparr>"
    by (simp add: handleLike_sent [OF a(1) a(3)] toggle_member_def liked_gallery_def liked_photo_def demo_photo_def)
  have d: "toggle Dislike demo_user (marks Dislike demo_gallery) (Inr ()) demo_photo_id
       (toggle Dislike demo_user (marks Dislike demo_gallery) (Inr ()) demo_photo_id demo_gallery)
     = \<lparr>userLikes = {}, userDislikes = {demo_photo_id},
        localPhotos = [disliked_photo\<lparr>dislike_count := - 1\<rparr>]\<rparr>"
    by (simp add: handleDislike_sent [OF a(1) a(2)] toggle_member_def demo_gallery_def disliked_photo_def demo_photo_def)
  have r: "active Like liked_gallery demo_photo_id = False"
    "map (counter Like) (localPhotos liked_gallery) = [3]"
    "active Dislike demo_gallery demo_photo_id = True"
    "map (counter Dislike) (localPhotos demo_gallery) = [1]"
    by (simp_all add: liked_gallery_def liked_photo_def demo_gallery_def disliked_photo_def demo_photo_def)
  from l d r show ?thesis by (intro conjI)
qed

section \<open>Batches\<close>

declare chunks.simps [simp del]

lemma chunks_Nil [simp]: "chunks n [] = []"
  by (simp add: chunks.simps)

lemma chunks_step: "0 < n \<Longrightarrow> xs \<noteq> [] \<Longrightarrow> chunks n xs = take n xs # chunks n (drop n xs)"
  by (subst chunks.simps) simp

lemma chunks_eq_Nil: "0 < n \<Longrightarrow> (chunks n xs = []) = (xs = [])"
  by (subst chunks.simps) simp

lemma concat_chunks: "0 < n \<Longrightarrow> concat (chunks n xs) = xs"
proof (induction n xs rule: chunks.induct)
  case (1 n xs)
  show ?case
  proof (cases "xs = []")
    case True
    then show ?thesis by simp
  next
    case False
    have "concat (chunks n xs) = take n xs @ concat (chunks n (drop n xs))"
      using chunks_step [OF 1(2) False] by simp
    also have "\<dots> = take n xs @ drop n xs"
      using 1 False by simp
    finally show ?thesis by simp
  qed
qed

lemma chunks_lengths:
  "0 < n \<Longrightarrow> b \<in> set (chunks n xs) \<Longrightarrow> 0 < length b \<and> length b \<le> n"
proof (induction n xs arbitrary: b rule: chunks.induct)
  case (1 n xs)
  show ?case
  proof (cases "xs = []")
    case True
    with 1(3) show ?thesis by simp
  next
    case False
    from 1(3) have "b = take n xs \<or> b \<in> set (chunks n (drop n xs))"
      using chunks_step [OF 1(2) False] by simp
    then show ?thesis
    proof
      assume "b = take n xs"
      with False 1(2) show ?thesis by simp
    next
      assume "b \<in> set (chunks n (drop n xs))"
      with 1(1) [of b] 1(2) False show ?thesis by simp
    qed
  qed
qed

lemma chunks_butlast_full:
  "0 < n \<Longrightarrow> b \<in> set (butlast (chunks n xs)) \<Longrightarrow> length b = n"
proof (induction n xs arbitrary: b rule: chunks.induct)
  case (1 n xs)
  show ?case
  proof (cases "xs = []")
    case True
    with 1(3) show ?thesis by simp
  next
    case False
    note st = chunks_step [OF 1(2) False]
    show ?thesis
    proof (cases "drop n xs = []")
      case True
      with 1(3) st show ?thesis by simp
    next
      case d: False
      then have len: "n < length xs" by simp
      from d 1(2) have ne: "chunks n (drop n xs) \<noteq> []" by (simp add: chunks_eq_Nil)
      from 1(3) st ne have "b = take n xs \<or> b \<in> set (butlast (chunks n (drop n xs)))"
        by simp
      then show ?thesis
      proof
        assume "b = take n xs"
        with len show ?thesis by simp
      next
        assume "b \<in> set (butlast (chunks n (drop n xs)))"
        with 1(1) [of b] 1(2) False show ?thesis by simp
      qed
    qed
  qed
qed

lemma length_chunks: "0 < n \<Longrightarrow> length (chunks n xs) = (length xs + n - 1) div n"
proof (induction n xs rule: chunks.induct)
  case (1 n xs)
  show ?case
  proof (cases "xs = []")
    case True
    with 1(2) show ?thesis by simp
  next
    case False
    then have l: "0 < length xs" by simp
    note st = chunks_step [OF 1(2) False]
    have ih: "length (chunks n (drop n xs)) = (length (drop n xs) + n - 1) div n"
      using 1(1) 1(2) False by blast
    have a: "length xs + n - 1 = (length xs - 1) + n" using l by arith
    have ar: "(length xs + n - 1) div n = Suc ((length xs - 1) div n)"
      unfolding a using 1(2) div_add_self2 [of n "length xs - 1"] by simp
    have b: "length (drop n xs) + n - 1 = (if n \<le> length xs then length xs - 1 else n - 1)"
      by simp
    have c: "(length (drop n xs) + n - 1) div n = (length xs - 1) div n"
    proof (cases "n \<le> length xs")
      case True
      then show ?thesis unfolding b by simp
    next
      case f: False
      then have "(length xs - 1) div n = 0" "(n - 1) div n = 0" using 1(2) by simp_all
      with f show ?thesis unfolding b by simp
    qed
    show ?thesis unfolding st ar using ih c by simp
  qed
qed

lemma chunks_last:
  assumes "0 < n" "xs \<noteq> []"
  shows "chunks n xs \<noteq> [] \<and> 0 < length (last (chunks n xs)) \<and> length (last (chunks n xs)) \<le> n"
proof -
  from assms have ne: "chunks n xs \<noteq> []" by (simp add: chunks_eq_Nil)
  then have "last (chunks n xs) \<in> set (chunks n xs)" by simp
  from chunks_lengths [OF assms(1) this] ne show ?thesis by simp
qed




lemma pauses_append: "pauses (xs @ ys) = pauses xs @ pauses ys"
  by (induction xs rule: pauses.induct) simp_all

lemma pauses_map_Submit: "pauses (map Submit rs) = []"
  by (induction rs) simp_all

lemma pauses_schedule: "pauses (schedule d bs) = replicate (length bs - 1) d"
proof (induction bs)
  case Nil
  then show ?case by simp
next
  case (Cons b bs)
  then show ?case
    by (cases bs) (simp_all add: pauses_append pauses_map_Submit)
qed

lemma schedule_eq_Nil: "(schedule d bs = []) = (bs = [])"
  by (cases bs) simp_all

lemma last_schedule: "bs \<noteq> [] \<Longrightarrow> last (schedule d bs) = AllSettled (length (last bs))"
  by (induction bs) (auto simp: schedule_eq_Nil)

section \<open>The batch uploader with logging\<close>

declare batch_loop.simps [simp del]

lemma enumerate_shift:
  "map (\<lambda>(k, x). g (i + k, x)) (enumerate 0 ys) = map g (enumerate i ys)"
  by (rule nth_equalityI) (simp_all add: nth_enumerate_eq)

lemma enumerate_slice:
  "enumerate i (slice xs i (i + n)) = take n (drop i (enumerate 0 xs))"
proof (rule nth_equalityI)
  show "length (enumerate i (slice xs i (i + n))) = length (take n (drop i (enumerate 0 xs)))"
    by (simp add: slice_def)
next
  fix k assume "k < length (enumerate i (slice xs i (i + n)))"
  then have k: "k < n" "i + k < length xs" by (auto simp add: slice_def)
  then have "enumerate i (slice xs i (i + n)) ! k = (i + k, xs ! (i + k))"
    by (simp add: slice_def nth_enumerate_eq)
  moreover from k have "take n (drop i (enumerate 0 xs)) ! k = (i + k, xs ! (i + k))"
    by (simp add: nth_enumerate_eq)
  ultimately show "enumerate i (slice xs i (i + n)) ! k = take n (drop i (enumerate 0 xs)) ! k"
    by simp
qed

lemma batch_map:
  "map (\<lambda>(k, file, log). g (i + k, file, log)) (enumerate 0 (slice xs i (i + n)))
     = take n (drop i (map g (enumerate 0 xs)))"
proof -
  have "(\<lambda>(k, file, log). g (i + k, file, log)) = (\<lambda>(k, x). g (i + k, x))"
    by (auto simp: fun_eq_iff)
  then show ?thesis
    by (simp add: enumerate_shift enumerate_slice take_map drop_map)
qed

lemma fold_tally:
  "fold tally (map Fulfilled vs) c =
     c\<lparr>completedCount := completedCount c + length (filter success vs),
       failedCount := failedCount c + length (filter (\<lambda>v. \<not> success v) vs)\<rparr>"
  by (induction vs arbitrary: c) simp_all

lemma batch_step_eq:
  "batch_step srv roomId userName ps i c =
     c\<lparr>completedCount := completedCount c + length (filter success (take BATCH_SIZE (drop i (outcomes srv roomId userName ps)))),
       failedCount := failedCount c + length (filter (\<lambda>v. \<not> success v) (take BATCH_SIZE (drop i (outcomes srv roomId userName ps)))),
       failedLogs := failedLogs c @ caught srv (take BATCH_SIZE (drop i (enumerate 0 (outcomes srv roomId userName ps)))),
       trace := trace c @ map Submit (take BATCH_SIZE (drop i (requests ps))) @ [AllSettled (length (take BATCH_SIZE (drop i (requests ps))))]
                @ (if i + BATCH_SIZE < length ps then [Delay BATCH_DELAY] else [])\<rparr>"
proof -
  have m1: "map (\<lambda>(k, file, log). attempt srv roomId userName (i + k, file, log)) (enumerate 0 (slice ps i (i + BATCH_SIZE)))
        = take BATCH_SIZE (drop i (outcomes srv roomId userName ps))"
    unfolding outcomes_def by (rule batch_map)
  have "map (\<lambda>(k, file, log). Submit (i + k, file, log_id log)) (enumerate 0 (slice ps i (i + BATCH_SIZE)))
        = map Submit (map (\<lambda>(k, file, log). (\<lambda>(k, file, log). (k, file, log_id log)) (i + k, file, log)) (enumerate 0 (slice ps i (i + BATCH_SIZE))))"
    by (simp add: case_prod_beta)
  also have "\<dots> = map Submit (take BATCH_SIZE (drop i (requests ps)))"
    unfolding requests_def by (subst batch_map) simp
  finally have m2: "map (\<lambda>(k, file, log). Submit (i + k, file, log_id log)) (enumerate 0 (slice ps i (i + BATCH_SIZE)))
        = map Submit (take BATCH_SIZE (drop i (requests ps)))" .
  have l: "length (slice ps i (i + BATCH_SIZE)) = length (take BATCH_SIZE (drop i (requests ps)))"
    by (simp add: requests_def slice_def)
  have e: "enumerate i (take BATCH_SIZE (drop i (outcomes srv roomId userName ps)))
        = take BATCH_SIZE (drop i (enumerate 0 (outcomes srv roomId userName ps)))"
    using enumerate_slice [of i "outcomes srv roomId userName ps" BATCH_SIZE]
    by (simp add: slice_def)
  show ?thesis
    unfolding batch_step_def Let_def m1 m2 l fold_tally e
    by simp
qed

lemma length_requests [simp]: "length (requests ps) = length ps"
  by (simp add: requests_def)

lemma length_outcomes [simp]: "length (outcomes srv roomId userName ps) = length ps"
  by (simp add: outcomes_def)

lemma requests_files: "map (fst \<circ> snd) (requests ps) = map fst ps"
  by (rule nth_equalityI) (simp_all add: requests_def nth_enumerate_eq case_prod_beta)

lemma drop_split: "drop i xs = take n (drop i xs) @ drop (i + n) xs"
  by (metis append_take_drop_id drop_drop add.commute)

lemma schedule_chunks_step:
  assumes "0 < n" "i < length xs"
  shows "schedule d (chunks n (drop i xs)) =
           map Submit (take n (drop i xs)) @ [AllSettled (length (take n (drop i xs)))]
           @ (if i + n < length xs then [Delay d] else [])
           @ schedule d (chunks n (drop (i + n) xs))"
proof -
  from assms have ne: "drop i xs \<noteq> []" by simp
  have dd: "drop n (drop i xs) = drop (i + n) xs" by (simp add: add.commute)
  have e: "(chunks n (drop (i + n) xs) = []) = (\<not> i + n < length xs)"
    using assms(1) by (auto simp add: chunks_eq_Nil)
  show ?thesis
    unfolding chunks_step [OF assms(1) ne] dd schedule.simps
    using e by (cases "i + n < length xs") simp_all
qed

text \<open>The loop from index \<open>i\<close> on, in closed form.\<close>

lemma batch_loop_eq:
  "batch_loop srv roomId userName ps i c =
     c\<lparr>completedCount := completedCount c + length (filter success (drop i (outcomes srv roomId userName ps))),
       failedCount := failedCount c + length (filter (\<lambda>v. \<not> success v) (drop i (outcomes srv roomId userName ps))),
       failedLogs := failedLogs c @ concat (map (caught srv) (chunks BATCH_SIZE (drop i (enumerate 0 (outcomes srv roomId userName ps))))),
       trace := trace c @ schedule BATCH_DELAY (chunks BATCH_SIZE (drop i (requests ps)))\<rparr>"
proof (induction srv roomId userName ps i c rule: batch_loop.induct)
  case (1 srv roomId userName ps i c)
  let ?os = "outcomes srv roomId userName ps"
  show ?case
  proof (cases "i < length ps")
    case False
    then show ?thesis
      by (subst batch_loop.simps) simp
  next
    case True
    have pos: "0 < BATCH_SIZE" by (simp add: BATCH_SIZE_def)
    have sc: "schedule BATCH_DELAY (chunks BATCH_SIZE (drop i (requests ps))) =
           map Submit (take BATCH_SIZE (drop i (requests ps))) @ [AllSettled (length (take BATCH_SIZE (drop i (requests ps))))]
           @ (if i + BATCH_SIZE < length ps then [Delay BATCH_DELAY] else [])
           @ schedule BATCH_DELAY (chunks BATCH_SIZE (drop (i + BATCH_SIZE) (requests ps)))"
      using schedule_chunks_step [OF pos, of i "requests ps" BATCH_DELAY] True by simp
    have f1: "filter success (drop i ?os) = filter success (take BATCH_SIZE (drop i ?os)) @ filter success (drop (i + BATCH_SIZE) ?os)"
      by (subst drop_split [of i ?os BATCH_SIZE]) simp
    have f2: "filter (\<lambda>v. \<not> success v) (drop i ?os) = filter (\<lambda>v. \<not> success v) (take BATCH_SIZE (drop i ?os)) @ filter (\<lambda>v. \<not> success v) (drop (i + BATCH_SIZE) ?os)"
      by (subst drop_split [of i ?os BATCH_SIZE]) simp
    have ne: "drop i (enumerate 0 ?os) \<noteq> []" using True by simp
    have dd: "drop BATCH_SIZE (drop i (enumerate 0 ?os)) = drop (i + BATCH_SIZE) (enumerate 0 ?os)"
      by (simp add: add.commute)
    have f3: "concat (map (caught srv) (chunks BATCH_SIZE (drop i (enumerate 0 ?os))))
        = caught srv (take BATCH_SIZE (drop i (enumerate 0 ?os)))
          @ concat (map (caught srv) (chunks BATCH_SIZE (drop (i + BATCH_SIZE) (enumerate 0 ?os))))"
      unfolding chunks_step [OF pos ne] dd by simp
    show ?thesis
      apply (subst batch_loop.simps)
      apply (simp only: True if_True "1.IH" [OF True])
      apply (simp only: batch_step_eq sc f1 f2 f3)
      apply simp
      done
  qed
qed

lemma batch_loop_run:
  "batch_loop srv roomId userName ps 0 \<lparr>completedCount = 0, failedCount = 0, failedLogs = [], trace = []\<rparr> =
     \<lparr>completedCount = length (filter success (outcomes srv roomId userName ps)),
      failedCount = length (filter (\<lambda>v. \<not> success v) (outcomes srv roomId userName ps)),
      failedLogs = failures srv roomId userName ps,
      trace = schedule BATCH_DELAY (chunks BATCH_SIZE (requests ps))\<rparr>"
  by (simp add: batch_loop_eq failures_def)

lemma counts_total:
  "length (filter success (outcomes srv roomId userName ps))
   + length (filter (\<lambda>v. \<not> success v) (outcomes srv roomId userName ps)) = length ps"
  using sum_length_filter_compl [of success "outcomes srv roomId userName ps"] by simp

lemma create_logs_length:
  "create_logs srv sid roomId userName n files = Inr logs \<Longrightarrow> length logs = length files"
  by (induction files arbitrary: n logs) (auto split: sum.splits)

lemma uploadFilesWithLogging_Inr:
  assumes "uploadFilesWithLogging srv roomId now files userName = Inr r"
  shows "\<exists>session logs.
    createSession srv \<lparr>create_room_id = roomId, create_user_name = userName, create_total_files = length files\<rparr> = Inr session
    \<and> create_logs srv (session_id session) roomId userName 0 files = Inr logs
    \<and> length logs = length files
    \<and> r = run_of srv roomId now files userName session logs"
  using assms
  by (auto simp: uploadFilesWithLogging_def Let_def batch_loop_run create_logs_length run_of_def split: sum.splits)

lemma run_completes:
  assumes "createSession srv \<lparr>create_room_id = roomId, create_user_name = userName, create_total_files = length files\<rparr> = Inr session"
    and "create_logs srv (session_id session) roomId userName 0 files = Inr logs"
    and "updateSession srv (session_id session) (updated (run_of srv roomId now files userName session logs)) = Inr ()"
  shows "uploadFilesWithLogging srv roomId now files userName = Inr (run_of srv roomId now files userName session logs)"
  using assms
  by (simp add: uploadFilesWithLogging_def Let_def batch_loop_run run_of_def)

text \<open>
  Claim C2. Whenever \<open>uploadFilesWithLogging\<close> brings the session to a terminal state,
  that is, its session update goes through and it returns, the \<open>completed_files\<close> and
  \<open>failed_files\<close> it writes add up to the \<open>total_files\<close> the session was created with,
  which is the number of files; the status it writes is terminal, and it is \<open>completed\<close>
  if and only if no file failed, \<open>failed\<close> if and only if no file completed and some file
  failed, and \<open>partially_failed\<close> if and only if some completed and some failed.
\<close>

theorem session_completion:
  assumes "uploadFilesWithLogging srv roomId now files userName = Inr r"
  shows "update_completed_files (updated r) + update_failed_files (updated r) = create_total_files (created r)
       \<and> create_total_files (created r) = length files
       \<and> update_status (updated r) \<noteq> in_progress
       \<and> (update_status (updated r) = completed \<longleftrightarrow> update_failed_files (updated r) = 0)
       \<and> (update_status (updated r) = failed \<longleftrightarrow>
            update_completed_files (updated r) = 0 \<and> update_failed_files (updated r) > 0)
       \<and> (update_status (updated r) = partially_failed \<longleftrightarrow>
            update_completed_files (updated r) > 0 \<and> update_failed_files (updated r) > 0)"
proof -
  from uploadFilesWithLogging_Inr [OF assms] obtain session logs where
    l: "length logs = length files" and r: "r = run_of srv roomId now files userName session logs"
    by blast
  have t: "length (filter success (outcomes srv roomId userName (zip files logs)))
     + length (filter (\<lambda>v. \<not> success v) (outcomes srv roomId userName (zip files logs))) = length files"
    using counts_total [of srv roomId userName "zip files logs"] l by simp
  show ?thesis
    unfolding r run_of_def Let_def using t by (simp add: finalStatus_def)
qed

text \<open>Two files on \<open>demo_backend\<close>: the first is stored, the second refused.\<close>

lemma demo_create_session:
  "createSession demo_backend \<lparr>create_room_id = demo_room, create_user_name = demo_user,
                                create_total_files = length two_files\<rparr>
     = Inr (demo_session \<lparr>create_room_id = demo_room, create_user_name = demo_user,
                           create_total_files = length two_files\<rparr>)"
  by (simp add: demo_backend_def)

lemma demo_session_id:
  "session_id (demo_session c) = str ''session-1''"
  by (simp add: demo_session_def)

lemma demo_create_logs:
  "create_logs demo_backend (str ''session-1'') demo_room demo_user 0 two_files = Inr two_logs"
  by (simp add: demo_backend_def two_files_def two_logs_def log_for_def png_def)

lemma demo_update: "updateSession demo_backend sid patch = Inr ()"
  by (simp add: demo_backend_def)

lemma demo_run:
  "uploadFilesWithLogging demo_backend demo_room demo_now two_files demo_user
     = Inr (run_of demo_backend demo_room demo_now two_files demo_user
              (demo_session \<lparr>create_room_id = demo_room, create_user_name = demo_user,
                             create_total_files = length two_files\<rparr>) two_logs)"
  by (rule run_completes [OF demo_create_session]) (simp_all add: demo_session_id demo_create_logs demo_update)

lemma demo_counts:
  "length (filter success (outcomes demo_backend demo_room demo_user (zip two_files two_logs))) = 1"
  "length (filter (\<lambda>v. \<not> success v) (outcomes demo_backend demo_room demo_user (zip two_files two_logs))) = 1"
  by (simp_all add: outcomes_def two_files_def two_logs_def attempt_def demo_backend_def)

theorem session_completion_witness:
  "\<exists>r. uploadFilesWithLogging demo_backend demo_room demo_now two_files demo_user = Inr r
     \<and> create_total_files (created r) = 2
     \<and> update_completed_files (updated r) = 1 \<and> update_failed_files (updated r) = 1
     \<and> update_completed_files (updated r) + update_failed_files (updated r) = create_total_files (created r)
     \<and> update_status (updated r) = partially_failed"
proof -
  let ?r = "run_of demo_backend demo_room demo_now two_files demo_user
              (demo_session \<lparr>create_room_id = demo_room, create_user_name = demo_user,
                             create_total_files = length two_files\<rparr>) two_logs"
  have c: "update_completed_files (updated ?r) = 1" "update_failed_files (updated ?r) = 1"
    by (simp_all add: run_of_def Let_def demo_counts)
  from session_completion [OF demo_run] c
  have "create_total_files (created ?r) = 2
     \<and> update_completed_files (updated ?r) + update_failed_files (updated ?r) = create_total_files (created ?r)
     \<and> update_status (updated ?r) = partially_failed"
    by (simp add: two_files_def)
  with demo_run c show ?thesis by blast
qed

section \<open>The plain batch uploader\<close>

declare make_batches.simps [simp del]

declare plain_loop.simps [simp del]

lemma make_batches_eq:
  "make_batches files i batches = batches @ chunks BATCH_SIZE_plain (drop i files)"
proof (induction files i batches rule: make_batches.induct)
  case (1 files i batches)
  show ?case
  proof (cases "i < length files")
    case False
    then show ?thesis by (subst make_batches.simps) simp
  next
    case True
    have pos: "0 < BATCH_SIZE_plain" by (simp add: BATCH_SIZE_plain_def)
    from True have ne: "drop i files \<noteq> []" by simp
    have "make_batches files i batches =
            (batches @ [slice files i (i + BATCH_SIZE_plain)]) @ chunks BATCH_SIZE_plain (drop (i + BATCH_SIZE_plain) files)"
      by (subst make_batches.simps) (simp only: True if_True "1.IH" [OF True])
    also have "\<dots> = batches @ chunks BATCH_SIZE_plain (drop i files)"
      unfolding chunks_step [OF pos ne] by (simp add: slice_def add.commute)
    finally show ?thesis .
  qed
qed

lemma fold_tally_plain:
  "fold tally_plain (map Fulfilled vs) s =
     s\<lparr>completedFiles := completedFiles s + length (filter try_success vs),
       skippedFiles := skippedFiles s + length (filter try_dup vs),
       errors := errors s @ concat (map try_lines vs)\<rparr>"
proof (induction vs arbitrary: s)
  case Nil
  then show ?case by simp
next
  case (Cons v vs)
  show ?case
    by (cases "try_error v") (simp_all add: Cons.IH try_dup_def try_lines_def)
qed

lemma enumerate_shift2:
  "map (\<lambda>(k, x). g (n + k, x)) (enumerate 0 ys) = map g (enumerate n ys)"
  by (rule nth_equalityI) (simp_all add: nth_enumerate_eq)

lemma plain_step_eq:
  assumes "batchIndex < length batches"
  shows "plain_step post roomId userName batches batchIndex n s =
     s\<lparr>completedFiles := completedFiles s + length (filter try_success (map (attempt_plain post roomId userName) (enumerate n (batches ! batchIndex)))),
       skippedFiles := skippedFiles s + length (filter try_dup (map (attempt_plain post roomId userName) (enumerate n (batches ! batchIndex)))),
       errors := errors s @ concat (map try_lines (map (attempt_plain post roomId userName) (enumerate n (batches ! batchIndex)))),
       sent := sent s @ map Submit (batches ! batchIndex) @ [AllSettled (length (batches ! batchIndex))]
               @ (if drop (Suc batchIndex) batches = [] then [] else [Delay BATCH_DELAY_plain])\<rparr>"
proof -
  have m: "map (\<lambda>(k, file). attempt_plain post roomId userName (n + k, file)) (enumerate 0 (batches ! batchIndex))
         = map (attempt_plain post roomId userName) (enumerate n (batches ! batchIndex))"
    by (rule enumerate_shift2)
  have c: "(batchIndex < length batches - 1) = (drop (Suc batchIndex) batches \<noteq> [])"
    using assms by auto
  show ?thesis
    unfolding plain_step_def Let_def m fold_tally_plain c by simp
qed

lemma plain_loop_eq:
  "plain_loop post roomId userName batches batchIndex n s =
     s\<lparr>completedFiles := completedFiles s + length (filter try_success (map (attempt_plain post roomId userName) (enumerate n (concat (drop batchIndex batches))))),
       skippedFiles := skippedFiles s + length (filter try_dup (map (attempt_plain post roomId userName) (enumerate n (concat (drop batchIndex batches))))),
       errors := errors s @ concat (map try_lines (map (attempt_plain post roomId userName) (enumerate n (concat (drop batchIndex batches))))),
       sent := sent s @ schedule BATCH_DELAY_plain (drop batchIndex batches)\<rparr>"
proof (induction post roomId userName batches batchIndex n s rule: plain_loop.induct)
  case (1 post roomId userName batches batchIndex n s)
  show ?case
  proof (cases "batchIndex < length batches")
    case False
    then show ?thesis by (subst plain_loop.simps) simp
  next
    case True
    have d: "drop batchIndex batches = batches ! batchIndex # drop (Suc batchIndex) batches"
      using True by (simp add: Cons_nth_drop_Suc)
    show ?thesis
      apply (subst plain_loop.simps)
      apply (simp only: True if_True "1.IH" [OF True])
      apply (simp only: plain_step_eq [OF True] d)
      apply (simp add: enumerate_append_eq)
      done
  qed
qed

lemma attempt_plain_kinds:
  "try_success (attempt_plain post roomId userName (n, file)) = is_uploaded (fst (photoApi_uploadPhoto post n roomId file userName))"
  "try_dup (attempt_plain post roomId userName (n, file)) = is_duplicate (fst (photoApi_uploadPhoto post n roomId file userName))"
  "try_lines (attempt_plain post roomId userName (n, file)) = detail_lines (file, fst (photoApi_uploadPhoto post n roomId file userName))"
  by (cases "fst (photoApi_uploadPhoto post n roomId file userName)"; simp add: attempt_plain_def try_dup_def try_lines_def)+

lemma plain_counts:
  "length (filter try_success (map (attempt_plain post roomId userName) (enumerate n files)))
     = length (filter is_uploaded (map (\<lambda>(n, file). fst (photoApi_uploadPhoto post n roomId file userName)) (enumerate n files)))
   \<and> length (filter try_dup (map (attempt_plain post roomId userName) (enumerate n files)))
     = length (filter is_duplicate (map (\<lambda>(n, file). fst (photoApi_uploadPhoto post n roomId file userName)) (enumerate n files)))
   \<and> concat (map try_lines (map (attempt_plain post roomId userName) (enumerate n files)))
     = concat (map detail_lines (zip files (map (\<lambda>(n, file). fst (photoApi_uploadPhoto post n roomId file userName)) (enumerate n files))))"
  by (induction files arbitrary: n) (simp_all add: attempt_plain_kinds)

lemma answer_kinds:
  "length as = length files \<Longrightarrow>
   length (concat (map detail_lines (zip files as))) = length (filter is_duplicate as) + length (filter is_failure as)
   \<and> length (filter is_uploaded as) + length (filter is_duplicate as) + length (filter is_failure as) = length files"
proof (induction as files rule: list_induct2)
  case Nil
  then show ?case by simp
next
  case (Cons a as f fs)
  then show ?case by (cases a) auto
qed

lemma uploadFilesInBatches_eq:
  "uploadFilesInBatches post roomId files userName =
     \<lparr>completedFiles = length (filter is_uploaded (answers post roomId userName files)),
      skippedFiles = length (filter is_duplicate (answers post roomId userName files)),
      errors = concat (map detail_lines (zip files (answers post roomId userName files))),
      sent = schedule BATCH_DELAY_plain (chunks BATCH_SIZE_plain files)\<rparr>"
proof -
  have pos: "0 < BATCH_SIZE_plain" by (simp add: BATCH_SIZE_plain_def)
  show ?thesis
    unfolding uploadFilesInBatches_def plain_loop_eq make_batches_eq answers_def
    using plain_counts [of post roomId userName 0 files]
    by (simp add: concat_chunks [OF pos])
qed

lemma length_answers [simp]: "length (answers post roomId userName files) = length files"
  by (simp add: answers_def)

text \<open>
  Claim C3. For every non-empty list of files both uploaders handle the files in
  consecutive batches of exactly 5, the last one possibly smaller (between 1 and 5): the
  trace of the run is the schedule of these batches, in which the calls of a batch are
  started, all their outcomes are awaited, and only then the next batch starts. Between
  two batches, and not after the last one, a pause of fixed length is made (4000 ms in
  the uploader with logging, 1000 ms in the plain one): a run of \<open>n\<close> batches makes
  \<open>n - 1\<close> pauses and ends with the awaiting of its last batch.
\<close>

theorem batches_of_five:
  assumes "fileLogPairs \<noteq> []" and "files \<noteq> []"
  shows "trace (batch_loop srv roomId userName fileLogPairs 0
                  \<lparr>completedCount = 0, failedCount = 0, failedLogs = [], trace = []\<rparr>)
           = schedule 4000 (chunks 5 (requests fileLogPairs))
       \<and> map (fst \<circ> snd) (concat (chunks 5 (requests fileLogPairs))) = map fst fileLogPairs
       \<and> (\<forall>b \<in> set (butlast (chunks 5 (requests fileLogPairs))). length b = 5)
       \<and> 1 \<le> length (last (chunks 5 (requests fileLogPairs)))
       \<and> length (last (chunks 5 (requests fileLogPairs))) \<le> 5
       \<and> length (chunks 5 (requests fileLogPairs)) = (length fileLogPairs + 4) div 5
       \<and> pauses (schedule 4000 (chunks 5 (requests fileLogPairs)))
           = replicate (length (chunks 5 (requests fileLogPairs)) - 1) 4000
       \<and> last (schedule 4000 (chunks 5 (requests fileLogPairs)))
           = AllSettled (length (last (chunks 5 (requests fileLogPairs))))
       \<and> sent (uploadFilesInBatches post roomId files userName) = schedule 1000 (chunks 5 files)
       \<and> concat (chunks 5 files) = files
       \<and> (\<forall>b \<in> set (butlast (chunks 5 files)). length b = 5)
       \<and> 1 \<le> length (last (chunks 5 files))
       \<and> length (last (chunks 5 files)) \<le> 5
       \<and> length (chunks 5 files) = (length files + 4) div 5
       \<and> pauses (schedule 1000 (chunks 5 files)) = replicate (length (chunks 5 files) - 1) 1000
       \<and> last (schedule 1000 (chunks 5 files)) = AllSettled (length (last (chunks 5 files)))
       \<and> (uploadFilesWithLogging srv roomId now files userName = Inr r \<longrightarrow>
            (\<exists>logs. length logs = length files
               \<and> run_trace r = schedule 4000 (chunks 5 (requests (zip files logs)))))"
proof -
  have pos: "(0::nat) < 5" by simp
  from assms(1) have "length (requests fileLogPairs) \<noteq> 0" by simp
  then have rne: "requests fileLogPairs \<noteq> []" by (simp del: length_requests)
  note a = chunks_last [OF pos rne] chunks_last [OF pos assms(2)]
  have t1: "trace (batch_loop srv roomId userName fileLogPairs 0
                  \<lparr>completedCount = 0, failedCount = 0, failedLogs = [], trace = []\<rparr>)
           = schedule 4000 (chunks 5 (requests fileLogPairs))"
    by (simp add: batch_loop_run BATCH_DELAY_def BATCH_SIZE_def)
  have t2: "sent (uploadFilesInBatches post roomId files userName) = schedule 1000 (chunks 5 files)"
    by (simp add: uploadFilesInBatches_eq BATCH_DELAY_plain_def BATCH_SIZE_plain_def)
  have f1: "\<forall>b \<in> set (butlast (chunks 5 (requests fileLogPairs))). length b = 5"
    using chunks_butlast_full [OF pos] by blast
  have f2: "\<forall>b \<in> set (butlast (chunks 5 files)). length b = 5"
    using chunks_butlast_full [OF pos] by blast
  have l1: "length (chunks 5 (requests fileLogPairs)) = (length fileLogPairs + 4) div 5"
    using length_chunks [OF pos, of "requests fileLogPairs"] by simp
  have l2: "length (chunks 5 files) = (length files + 4) div 5"
    using length_chunks [OF pos, of files] by simp
  have c1: "map (fst \<circ> snd) (concat (chunks 5 (requests fileLogPairs))) = map fst fileLogPairs"
    unfolding concat_chunks [OF pos] by (rule requests_files)
  note c2 = concat_chunks [OF pos, of files]
  note p = pauses_schedule last_schedule
  have u: "uploadFilesWithLogging srv roomId now files userName = Inr r \<longrightarrow>
            (\<exists>logs. length logs = length files
               \<and> run_trace r = schedule 4000 (chunks 5 (requests (zip files logs))))"
  proof
    assume "uploadFilesWithLogging srv roomId now files userName = Inr r"
    from uploadFilesWithLogging_Inr [OF this] obtain session logs where
      "length logs = length files" "r = run_of srv roomId now files userName session logs"
      by blast
    then have "length logs = length files
               \<and> run_trace r = schedule 4000 (chunks 5 (requests (zip files logs)))"
      by (simp add: run_of_def Let_def BATCH_DELAY_def BATCH_SIZE_def)
    then show "\<exists>logs. length logs = length files
               \<and> run_trace r = schedule 4000 (chunks 5 (requests (zip files logs)))"
      by blast
  qed
  from t1 c1 f1 a(1) l1 t2 c2 f2 a(2) l2 have
    "trace (batch_loop srv roomId userName fileLogPairs 0
                  \<lparr>completedCount = 0, failedCount = 0, failedLogs = [], trace = []\<rparr>)
           = schedule 4000 (chunks 5 (requests fileLogPairs))
       \<and> map (fst \<circ> snd) (concat (chunks 5 (requests fileLogPairs))) = map fst fileLogPairs
       \<and> (\<forall>b \<in> set (butlast (chunks 5 (requests fileLogPairs))). length b = 5)
       \<and> 1 \<le> length (last (chunks 5 (requests fileLogPairs)))
       \<and> length (last (chunks 5 (requests fileLogPairs))) \<le> 5
       \<and> length (chunks 5 (requests fileLogPairs)) = (length fileLogPairs + 4) div 5
       \<and> pauses (schedule 4000 (chunks 5 (requests fileLogPairs)))
           = replicate (length (chunks 5 (requests fileLogPairs)) - 1) 4000
       \<and> last (schedule 4000 (chunks 5 (requests fileLogPairs)))
           = AllSettled (length (last (chunks 5 (requests fileLogPairs))))
       \<and> sent (uploadFilesInBatches post roomId files userName) = schedule 1000 (chunks 5 files)
       \<and> concat (chunks 5 files) = files
       \<and> (\<forall>b \<in> set (butlast (chunks 5 files)). length b = 5)
       \<and> 1 \<le> length (last (chunks 5 files))
       \<and> length (last (chunks 5 files)) \<le> 5
       \<and> length (chunks 5 files) = (length files + 4) div 5
       \<and> pauses (schedule 1000 (chunks 5 files)) = replicate (length (chunks 5 files) - 1) 1000
       \<and> last (schedule 1000 (chunks 5 files)) = AllSettled (length (last (chunks 5 files)))"
    by (simp add: p Suc_le_eq)
  with u show ?thesis by blast
qed

lemma seven_run:
  "uploadFilesWithLogging demo_backend demo_room demo_now seven_files demo_user
     = Inr (run_of demo_backend demo_room demo_now seven_files demo_user
              (demo_session \<lparr>create_room_id = demo_room, create_user_name = demo_user,
                             create_total_files = length seven_files\<rparr>) seven_logs)"
proof (rule run_completes)
  show "createSession demo_backend \<lparr>create_room_id = demo_room, create_user_name = demo_user,
                                     create_total_files = length seven_files\<rparr>
        = Inr (demo_session \<lparr>create_room_id = demo_room, create_user_name = demo_user,
                             create_total_files = length seven_files\<rparr>)"
    by (simp add: demo_backend_def)
  show "create_logs demo_backend
          (session_id (demo_session \<lparr>create_room_id = demo_room, create_user_name = demo_user,
                                     create_total_files = length seven_files\<rparr>))
          demo_room demo_user 0 seven_files = Inr seven_logs"
    by (simp add: demo_session_id)
       (simp add: demo_backend_def seven_files_def seven_logs_def seven_pairs_def log_for_def png_def
          demo_log_def eval_nat_numeral)
  show "updateSession demo_backend
          (session_id (demo_session \<lparr>create_room_id = demo_room, create_user_name = demo_user,
                                     create_total_files = length seven_files\<rparr>))
          (updated (run_of demo_backend demo_room demo_now seven_files demo_user
              (demo_session \<lparr>create_room_id = demo_room, create_user_name = demo_user,
                             create_total_files = length seven_files\<rparr>) seven_logs)) = Inr ()"
    by (rule demo_update)
qed

text \<open>Seven files are handled as a batch of five, a pause, and a batch of two.\<close>

lemma seven_chunks:
  "chunks 5 seven_files = [[png 1, png 2, png 3, png 4, png 5], [png 6, png 7]]"
  by (simp add: seven_files_def chunks.simps)

lemma seven_requests:
  "requests seven_pairs
     = [(0, png 1, str ''log-0''), (1, png 2, str ''log-1''), (2, png 3, str ''log-2''),
        (3, png 4, str ''log-3''), (4, png 5, str ''log-4''), (5, png 6, str ''log-5''),
        (6, png 7, str ''log-6'')]"
  by (simp add: requests_def seven_pairs_def log_for_def demo_log_def str_def)

lemma seven_request_chunks:
  "chunks 5 (requests seven_pairs)
     = [[(0, png 1, str ''log-0''), (1, png 2, str ''log-1''), (2, png 3, str ''log-2''),
         (3, png 4, str ''log-3''), (4, png 5, str ''log-4'')],
        [(5, png 6, str ''log-5''), (6, png 7, str ''log-6'')]]"
  unfolding seven_requests by (simp add: chunks.simps)

theorem batches_of_five_witness:
  "seven_pairs \<noteq> [] \<and> seven_files \<noteq> []
   \<and> chunks 5 seven_files = [[png 1, png 2, png 3, png 4, png 5], [png 6, png 7]]
   \<and> sent (uploadFilesInBatches demo_post demo_room seven_files demo_user)
       = [Submit (png 1), Submit (png 2), Submit (png 3), Submit (png 4), Submit (png 5),
          AllSettled 5, Delay 1000, Submit (png 6), Submit (png 7), AllSettled 2]
   \<and> trace (batch_loop demo_backend demo_room demo_user seven_pairs 0
                \<lparr>completedCount = 0, failedCount = 0, failedLogs = [], trace = []\<rparr>)
       = [Submit (0, png 1, str ''log-0''), Submit (1, png 2, str ''log-1''),
          Submit (2, png 3, str ''log-2''), Submit (3, png 4, str ''log-3''),
          Submit (4, png 5, str ''log-4''), AllSettled 5, Delay 4000,
          Submit (5, png 6, str ''log-5''), Submit (6, png 7, str ''log-6''), AllSettled 2]
   \<and> uploadFilesWithLogging demo_backend demo_room demo_now seven_files demo_user
       = Inr (run_of demo_backend demo_room demo_now seven_files demo_user
                (demo_session \<lparr>create_room_id = demo_room, create_user_name = demo_user,
                               create_total_files = length seven_files\<rparr>) seven_logs)
   \<and> (\<exists>logs. length logs = length seven_files
        \<and> run_trace (run_of demo_backend demo_room demo_now seven_files demo_user
                (demo_session \<lparr>create_room_id = demo_room, create_user_name = demo_user,
                               create_total_files = length seven_files\<rparr>) seven_logs)
          = schedule 4000 (chunks 5 (requests (zip seven_files logs))))"
proof -
  have ne: "seven_pairs \<noteq> []" "seven_files \<noteq> []"
    by (simp_all add: seven_pairs_def seven_files_def)
  note t = batches_of_five [OF ne, where srv = demo_backend and roomId = demo_room and userName = demo_user
      and post = demo_post and now = demo_now
      and r = "run_of demo_backend demo_room demo_now seven_files demo_user
                (demo_session \<lparr>create_room_id = demo_room, create_user_name = demo_user,
                               create_total_files = length seven_files\<rparr>) seven_logs"]
  from t have t1: "trace (batch_loop demo_backend demo_room demo_user seven_pairs 0
                \<lparr>completedCount = 0, failedCount = 0, failedLogs = [], trace = []\<rparr>)
           = schedule 4000 (chunks 5 (requests seven_pairs))"
    by (rule conjunct1)
  from t have t2: "sent (uploadFilesInBatches demo_post demo_room seven_files demo_user)
           = schedule 1000 (chunks 5 seven_files)"
    by (elim conjE)
  from t have "uploadFilesWithLogging demo_backend demo_room demo_now seven_files demo_user
       = Inr (run_of demo_backend demo_room demo_now seven_files demo_user
                (demo_session \<lparr>create_room_id = demo_room, create_user_name = demo_user,
                               create_total_files = length seven_files\<rparr>) seven_logs)
     \<longrightarrow> (\<exists>logs. length logs = length seven_files
        \<and> run_trace (run_of demo_backend demo_room demo_now seven_files demo_user
                (demo_session \<lparr>create_room_id = demo_room, create_user_name = demo_user,
                               create_total_files = length seven_files\<rparr>) seven_logs)
          = schedule 4000 (chunks 5 (requests (zip seven_files logs))))"
    by (elim conjE)
  with seven_run have t3: "\<exists>logs. length logs = length seven_files
        \<and> run_trace (run_of demo_backend demo_room demo_now seven_files demo_user
                (demo_session \<lparr>create_room_id = demo_room, create_user_name = demo_user,
                               create_total_files = length seven_files\<rparr>) seven_logs)
          = schedule 4000 (chunks 5 (requests (zip seven_files logs)))"
    by (rule rev_mp)
  have s1: "schedule 4000 (chunks 5 (requests seven_pairs))
       = [Submit (0, png 1, str ''log-0''), Submit (1, png 2, str ''log-1''),
          Submit (2, png 3, str ''log-2''), Submit (3, png 4, str ''log-3''),
          Submit (4, png 5, str ''log-4''), AllSettled 5, Delay 4000,
          Submit (5, png 6, str ''log-5''), Submit (6, png 7, str ''log-6''), AllSettled 2]"
    unfolding seven_request_chunks by simp
  have s2: "schedule 1000 (chunks 5 seven_files)
       = [Submit (png 1), Submit (png 2), Submit (png 3), Submit (png 4), Submit (png 5),
          AllSettled 5, Delay 1000, Submit (png 6), Submit (png 7), AllSettled 2]"
    unfolding seven_chunks by simp
  from ne seven_chunks t1 t2 seven_run t3 show ?thesis
    unfolding s1 s2 by (intro conjI)
qed

text \<open>
  Claim C9. Every run of the plain uploader returns a summary: the number of uploaded
  files, the number of files rejected as duplicates (status 409), and one line of
  \<open>errors\<close> for every file that was not uploaded, in the order of the files, made of the
  file's name and of what went wrong. A duplicate counts in \<open>skippedFiles\<close>; the number
  of failures \<open>handleUpload\<close> reports is the number of lines less the duplicates, which is
  the number of files that failed for another reason. The three numbers add up to the
  number of files, and they are what the alert of \<open>handleUpload\<close> shows.
\<close>

theorem batch_summary:
  "completedFiles (uploadFilesInBatches post roomId files userName)
     = length (filter is_uploaded (answers post roomId userName files))
   \<and> skippedFiles (uploadFilesInBatches post roomId files userName)
     = length (filter is_duplicate (answers post roomId userName files))
   \<and> length (errors (uploadFilesInBatches post roomId files userName))
        - skippedFiles (uploadFilesInBatches post roomId files userName)
     = length (filter is_failure (answers post roomId userName files))
   \<and> length (filter is_uploaded (answers post roomId userName files))
      + length (filter is_duplicate (answers post roomId userName files))
      + length (filter is_failure (answers post roomId userName files)) = length files
   \<and> errors (uploadFilesInBatches post roomId files userName)
     = concat (map detail_lines (zip files (answers post roomId userName files)))
   \<and> upload_message (uploadFilesInBatches post roomId files userName)
     = (if 0 < length (filter is_uploaded (answers post roomId userName files))
        then [Uploaded (length (filter is_uploaded (answers post roomId userName files)))] else [])
       @ (if 0 < length (filter is_duplicate (answers post roomId userName files))
          then [SkippedDuplicates (length (filter is_duplicate (answers post roomId userName files)))] else [])
       @ (if 0 < length (filter is_failure (answers post roomId userName files))
          then [UploadsFailed (length (filter is_failure (answers post roomId userName files)))] else [])
   \<and> (files \<noteq> [] \<and> validateInput_userName userName \<and> validateInput_roomId roomId \<longrightarrow>
        handleUpload post roomId (Some files) (Some userName)
          = Summary (upload_message (uploadFilesInBatches post roomId files userName))
                    (uploadFilesInBatches post roomId files userName))"
proof -
  let ?as = "answers post roomId userName files"
  let ?s = "uploadFilesInBatches post roomId files userName"
  note k = answer_kinds [of ?as files, simplified]
  have c: "completedFiles ?s = length (filter is_uploaded ?as)"
    and d: "skippedFiles ?s = length (filter is_duplicate ?as)"
    and e: "errors ?s = concat (map detail_lines (zip files ?as))"
    by (simp_all add: uploadFilesInBatches_eq)
  have f: "length (errors ?s) - skippedFiles ?s = length (filter is_failure ?as)"
    unfolding e d using k by simp
  have g: "length (errors ?s) > skippedFiles ?s \<longleftrightarrow> 0 < length (filter is_failure ?as)"
    unfolding e d using k by simp
  have m: "upload_message ?s
     = (if 0 < length (filter is_uploaded ?as) then [Uploaded (length (filter is_uploaded ?as))] else [])
       @ (if 0 < length (filter is_duplicate ?as) then [SkippedDuplicates (length (filter is_duplicate ?as))] else [])
       @ (if 0 < length (filter is_failure ?as) then [UploadsFailed (length (filter is_failure ?as))] else [])"
    unfolding upload_message_def g f unfolding c d by (rule refl)
  have h: "files \<noteq> [] \<and> validateInput_userName userName \<and> validateInput_roomId roomId \<longrightarrow>
        handleUpload post roomId (Some files) (Some userName) = Summary (upload_message ?s) ?s"
    by (simp add: handleUpload_def Let_def valid_name_nonempty)
  from c d f k e m h show ?thesis by blast
qed

text \<open>Three files on \<open>demo_post\<close>: one uploaded, one duplicate, one failure.\<close>

lemma png_valid:
  "validateInput_file (png 1) = \<lparr>valid = True, error = None\<rparr>"
  "validateInput_file (png (Suc 0)) = \<lparr>valid = True, error = None\<rparr>"
  "validateInput_file (png 2) = \<lparr>valid = True, error = None\<rparr>"
  "validateInput_file (png 3) = \<lparr>valid = True, error = None\<rparr>"
  by (simp_all add: validateInput_file_def png_def allowedTypes_def maxSize_def str_def)

lemma three_answers:
  "answers demo_post demo_room demo_user three_files
     = [Inr (demo_photo (str ''photo-0'') (png 1)), Inl already_there, Inl disk_full]"
  using demo_room_valid demo_user_valid
  by (simp add: answers_def three_files_def photoApi_uploadPhoto_def Let_def png_valid demo_post_def str_def)

lemma three_kinds:
  "status_of already_there = Some 409" "status_of disk_full = Some 500"
  by (simp_all add: status_of_def already_there_def disk_full_def)

theorem batch_summary_witness:
  "three_files \<noteq> [] \<and> validateInput_userName demo_user \<and> validateInput_roomId demo_room
   \<and> answers demo_post demo_room demo_user three_files
       = [Inr (demo_photo (str ''photo-0'') (png 1)), Inl already_there, Inl disk_full]
   \<and> completedFiles (uploadFilesInBatches demo_post demo_room three_files demo_user) = 1
   \<and> skippedFiles (uploadFilesInBatches demo_post demo_room three_files demo_user) = 1
   \<and> errors (uploadFilesInBatches demo_post demo_room three_files demo_user)
       = [file_name (png 2) @ msg_duplicate,
          file_name (png 3) @ msg_upload_failed @ str ''Request failed with status code 500'' @ str '')'']
   \<and> upload_message (uploadFilesInBatches demo_post demo_room three_files demo_user)
       = [Uploaded 1, SkippedDuplicates 1, UploadsFailed 1]
   \<and> handleUpload demo_post demo_room (Some three_files) (Some demo_user)
       = Summary [Uploaded 1, SkippedDuplicates 1, UploadsFailed 1]
                 (uploadFilesInBatches demo_post demo_room three_files demo_user)"
proof -
  have ne: "three_files \<noteq> []" by (simp add: three_files_def)
  have z: "zip three_files [Inr (demo_photo (str ''photo-0'') (png 1)), Inl already_there, Inl disk_full]
           = [(png 1, Inr (demo_photo (str ''photo-0'') (png 1))), (png 2, Inl already_there), (png 3, Inl disk_full)]"
    by (simp add: three_files_def)
  have l2: "error_line (png 2) already_there = file_name (png 2) @ msg_duplicate"
    by (simp add: error_line_def three_kinds)
  have l3: "error_line (png 3) disk_full
        = file_name (png 3) @ msg_upload_failed @ str ''Request failed with status code 500'' @ str '')''"
    by (simp add: error_line_def three_kinds) (simp add: disk_full_def or_else_def str_def)
  note t = batch_summary [of demo_post demo_room three_files demo_user, unfolded three_answers z]
  from t have c: "completedFiles (uploadFilesInBatches demo_post demo_room three_files demo_user) = 1"
    by (simp add: three_kinds)
  from t have s: "skippedFiles (uploadFilesInBatches demo_post demo_room three_files demo_user) = 1"
    by (simp add: three_kinds)
  from t have e: "errors (uploadFilesInBatches demo_post demo_room three_files demo_user)
       = [file_name (png 2) @ msg_duplicate,
          file_name (png 3) @ msg_upload_failed @ str ''Request failed with status code 500'' @ str '')'']"
    by (simp add: l2 l3)
  from t have m: "upload_message (uploadFilesInBatches demo_post demo_room three_files demo_user)
       = [Uploaded 1, SkippedDuplicates 1, UploadsFailed 1]"
    by (simp add: three_kinds)
  from t ne demo_user_valid demo_room_valid
  have h: "handleUpload demo_post demo_room (Some three_files) (Some demo_user)
       = Summary (upload_message (uploadFilesInBatches demo_post demo_room three_files demo_user))
                 (uploadFilesInBatches demo_post demo_room three_files demo_user)"
    by blast
  from ne demo_user_valid demo_room_valid three_answers c s e m h [unfolded m]
  show ?thesis by (intro conjI)
qed

section \<open>Failures of single files\<close>











text \<open>
  Two files on \<open>late_backend\<close>, where both uploads fail and the answer to the second call
  arrives first: the failed files of the result are in the order of the answers.
\<close>

lemma failed_files_by_arrival:
  "uploadFilesWithLogging late_backend demo_room demo_now two_files demo_user
     = Inr (run_of late_backend demo_room demo_now two_files demo_user
              (demo_session \<lparr>create_room_id = demo_room, create_user_name = demo_user,
                             create_total_files = length two_files\<rparr>) two_logs)
   \<and> result_failed_files (result (run_of late_backend demo_room demo_now two_files demo_user
              (demo_session \<lparr>create_room_id = demo_room, create_user_name = demo_user,
                             create_total_files = length two_files\<rparr>) two_logs))
     = [log_for 1 (png 2), log_for 0 (png 1)]"
proof -
  have "uploadFilesWithLogging late_backend demo_room demo_now two_files demo_user
     = Inr (run_of late_backend demo_room demo_now two_files demo_user
              (demo_session \<lparr>create_room_id = demo_room, create_user_name = demo_user,
                             create_total_files = length two_files\<rparr>) two_logs)"
  proof (rule run_completes)
    show "createSession late_backend \<lparr>create_room_id = demo_room, create_user_name = demo_user,
                                     create_total_files = length two_files\<rparr>
        = Inr (demo_session \<lparr>create_room_id = demo_room, create_user_name = demo_user,
                             create_total_files = length two_files\<rparr>)"
      by (simp add: late_backend_def demo_backend_def)
    show "create_logs late_backend
          (session_id (demo_session \<lparr>create_room_id = demo_room, create_user_name = demo_user,
                                     create_total_files = length two_files\<rparr>))
          demo_room demo_user 0 two_files = Inr two_logs"
      by (simp add: demo_session_id)
         (simp add: late_backend_def demo_backend_def two_files_def two_logs_def log_for_def png_def)
    show "updateSession late_backend
          (session_id (demo_session \<lparr>create_room_id = demo_room, create_user_name = demo_user,
                                     create_total_files = length two_files\<rparr>))
          (updated (run_of late_backend demo_room demo_now two_files demo_user
              (demo_session \<lparr>create_room_id = demo_room, create_user_name = demo_user,
                             create_total_files = length two_files\<rparr>) two_logs)) = Inr ()"
      by (simp add: late_backend_def demo_backend_def)
  qed
  moreover have "failures late_backend demo_room demo_user (zip two_files two_logs)
                 = [log_for 1 (png 2), log_for 0 (png 1)]"
    by (simp add: failures_def caught_def outcomes_def two_files_def two_logs_def attempt_def
          late_backend_def demo_backend_def BATCH_SIZE_def chunks.simps)
  ultimately show ?thesis by (simp add: run_of_def Let_def)
qed




section \<open>Retrying\<close>

lemma retry_loop_counts: "retry_loop logs (s, f) = (s + length logs, f)"
  by (induction logs arbitrary: s) simp_all

lemma retry_calls:
  "calls (retryFailedUploads srv uploadResult uploadSession stored) = []
   \<or> (\<exists>ids. calls (retryFailedUploads srv uploadResult uploadSession stored) = [Call_retryFailedUploads ids])
   \<or> (\<exists>ids sid. calls (retryFailedUploads srv uploadResult uploadSession stored)
         = [Call_retryFailedUploads ids, Call_getSessionLogs sid])"
  by (auto simp: retryFailedUploads_def Let_def split: option.splits sum.splits)

text \<open>Whatever the state and the server's answers, retrying sends no upload.\<close>

lemma retry_never_uploads:
  "Call_uploadPhotoWithLogging roomId file userName lid
     \<notin> set (calls (retryFailedUploads srv uploadResult uploadSession stored))"
  using retry_calls [of srv uploadResult uploadSession stored] by auto

text \<open>
  Claim C8, which the code does not meet. The claim: after \<open>retryFailedUploads\<close> has reset
  the failed logs, the files are uploaded again and end as a success or a failure. What
  the component does for one failed file whose log the server has reset: it asks for the
  reset, fetches the logs, counts the pending log as a successful retry, and sends no
  upload; the log stays pending.
\<close>

theorem retry_uploads_nothing:
  "retryFailedUploads retry_backend (Some failed_result) (Some demo_session_state) (Some demo_user)
     = \<lparr>alert = RetryFinished 1 0,
        calls = [Call_retryFailedUploads [str ''log-1''], Call_getSessionLogs (str ''session-1'')]\<rparr>
   \<and> getSessionLogs retry_backend (str ''session-1'')
       = Inr [(log_for 0 (png 1))\<lparr>log_status := log_success\<rparr>, reset_log]
   \<and> log_status reset_log = log_pending"
  by (simp add: retryFailedUploads_def retry_backend_def demo_backend_def failed_result_def
      failed_log_def reset_log_def log_for_def demo_log_def demo_session_state_def demo_session_def
      demo_user_def str_def Let_def)

section \<open>Validation\<close>

lemma js_includes_iff: "js_includes s pat \<longleftrightarrow> (\<exists>us vs. s = us @ pat @ vs)"
proof (induction s)
  case Nil
  then show ?case by auto
next
  case (Cons c cs)
  show ?case
  proof
    assume "js_includes (c # cs) pat"
    then consider "take (length pat) (c # cs) = pat" | "js_includes cs pat" by auto
    then show "\<exists>us vs. c # cs = us @ pat @ vs"
    proof cases
      case 1
      then have "c # cs = [] @ pat @ drop (length pat) (c # cs)"
        by (metis append_Nil append_take_drop_id)
      then show ?thesis by blast
    next
      case 2
      with Cons.IH obtain us vs where "cs = us @ pat @ vs" by blast
      then have "c # cs = (c # us) @ pat @ vs" by simp
      then show ?thesis by blast
    qed
  next
    assume "\<exists>us vs. c # cs = us @ pat @ vs"
    then obtain us vs where e: "c # cs = us @ pat @ vs" by blast
    show "js_includes (c # cs) pat"
    proof (cases us)
      case Nil
      with e have "take (length pat) (c # cs) = pat" by simp
      then show ?thesis by simp
    next
      case (Cons u us')
      with e have "cs = us' @ pat @ vs" by simp
      with Cons.IH have "js_includes cs pat" by blast
      then show ?thesis by simp
    qed
  qed
qed

lemma js_includes_unit: "js_includes s [c] \<longleftrightarrow> c \<in> set s"
  by (induction s) auto

text \<open>A name is refused when it contains \<open>..\<close>, the code unit 47 (\<open>/\<close>) or the code unit 92.\<close>

lemma unsafe_name_iff:
  "unsafe_name s \<longleftrightarrow> (\<exists>us vs. s = us @ str ''..'' @ vs) \<or> 47 \<in> set s \<or> 92 \<in> set s"
proof -
  have "str ''/'' = [47]" by (simp add: str_def)
  then show ?thesis
    by (simp add: unsafe_name_def js_includes_iff [of s "str ''..''"] js_includes_unit)
qed

lemma validateInput_file_cases:
  "validateInput_file file =
     (if file_type file \<notin> set allowedTypes then
        \<lparr>valid = False, error = Some (str ''Invalid file type. Only JPEG, PNG, GIF, and WebP are allowed.'')\<rparr>
      else if file_size file > maxSize then
        \<lparr>valid = False, error = Some (str ''File too large. Maximum size is 10MB.'')\<rparr>
      else if unsafe_name (file_name file) then \<lparr>valid = False, error = Some (str ''Invalid filename.'')\<rparr>
      else \<lparr>valid = True, error = None\<rparr>)"
  unfolding unsafe_name_def validateInput_file_def ..

lemma valid_iff:
  "valid (validateInput_file file) \<longleftrightarrow>
     file_type file \<in> set allowedTypes \<and> file_size file \<le> maxSize \<and> \<not> unsafe_name (file_name file)"
  by (simp add: validateInput_file_cases)

lemma sent_iff:
  "snd (photoApi_uploadPhoto post n roomId file uploaderName) = [] \<longleftrightarrow>
     \<not> validateInput_roomId roomId \<or> \<not> validateInput_userName uploaderName \<or> \<not> valid (validateInput_file file)"
  by (simp add: photoApi_uploadPhoto_def Let_def)

lemma processFiles_valid: "fst (processFiles files) = filter (\<lambda>f. valid (validateInput_file f)) files"
  by (induction files) (simp_all add: Let_def)

lemma traversal_unsafe: "47 \<in> set (file_name traversal_file)"
  by (simp add: traversal_file_def str_def)

text \<open>
  Claim C7 as stated fails: a file of an allowed type and size, uploaded by a well-formed
  user name to a well-formed room id, is rejected when its name is \<open>../a.png\<close>.
\<close>

theorem upload_validation_counterexample:
  "file_type traversal_file \<in> set allowedTypes \<and> file_size traversal_file \<le> 10 * 1024 * 1024
   \<and> validateInput_userName demo_user \<and> validateInput_roomId demo_room
   \<and> photoApi_uploadPhoto demo_post 0 demo_room traversal_file demo_user
       = (Inl (Error (str ''Invalid filename.'')), [])"
proof -
  have a: "file_type traversal_file \<in> set allowedTypes" "file_size traversal_file \<le> 10 * 1024 * 1024"
    by (simp_all add: traversal_file_def allowedTypes_def str_def)
  have v: "validateInput_file traversal_file = \<lparr>valid = False, error = Some (str ''Invalid filename.'')\<rparr>"
    by (simp add: validateInput_file_def traversal_file_def allowedTypes_def maxSize_def str_def)
  have "photoApi_uploadPhoto demo_post 0 demo_room traversal_file demo_user
       = (Inl (Error (str ''Invalid filename.'')), [])"
    using demo_room_valid demo_user_valid
    by (simp add: photoApi_uploadPhoto_def Let_def v Error_def or_else_def str_def)
  with a demo_user_valid demo_room_valid show ?thesis by simp
qed

text \<open>
  Claim C7, amended. For every submitted file, \<open>photoApi.uploadPhoto\<close> throws before it
  sends anything exactly when the room id or the uploader name fails its format check, or
  the content type is not one of \<open>image/jpeg\<close>, \<open>image/jpg\<close>, \<open>image/png\<close>, \<open>image/gif\<close>,
  \<open>image/webp\<close>, or the size exceeds 10 MiB, or the file's name contains \<open>..\<close>, \<open>/\<close> or a
  backslash. What it throws then is a plain error (no response of the server). A file
  that passes all these checks is sent, once, and the result is the server's answer.
\<close>

theorem upload_validation:
  "(snd (photoApi_uploadPhoto post n roomId file uploaderName) = [] \<longleftrightarrow>
      \<not> validateInput_roomId roomId \<or> \<not> validateInput_userName uploaderName
      \<or> file_type file \<notin> {str ''image/jpeg'', str ''image/jpg'', str ''image/png'', str ''image/gif'',
                             str ''image/webp''}
      \<or> file_size file > 10 * 1024 * 1024
      \<or> (\<exists>us vs. file_name file = us @ str ''..'' @ vs) \<or> 47 \<in> set (file_name file)
      \<or> 92 \<in> set (file_name file))
   \<and> (snd (photoApi_uploadPhoto post n roomId file uploaderName) = [] \<longrightarrow>
        (\<exists>e. fst (photoApi_uploadPhoto post n roomId file uploaderName) = Inl e \<and> response e = None))
   \<and> (snd (photoApi_uploadPhoto post n roomId file uploaderName) \<noteq> [] \<longrightarrow>
        photoApi_uploadPhoto post n roomId file uploaderName
          = (post n \<lparr>request_room = roomId, request_file = file,
                      request_uploader_name = sanitizeInput uploaderName\<rparr>,
             [\<lparr>request_room = roomId, request_file = file,
               request_uploader_name = sanitizeInput uploaderName\<rparr>]))"
proof -
  have t: "set allowedTypes = {str ''image/jpeg'', str ''image/jpg'', str ''image/png'', str ''image/gif'', str ''image/webp''}"
    by (simp add: allowedTypes_def)
  have a: "snd (photoApi_uploadPhoto post n roomId file uploaderName) = [] \<longleftrightarrow>
      \<not> validateInput_roomId roomId \<or> \<not> validateInput_userName uploaderName
      \<or> file_type file \<notin> {str ''image/jpeg'', str ''image/jpg'', str ''image/png'', str ''image/gif'',
                             str ''image/webp''}
      \<or> file_size file > 10 * 1024 * 1024
      \<or> (\<exists>us vs. file_name file = us @ str ''..'' @ vs) \<or> 47 \<in> set (file_name file)
      \<or> 92 \<in> set (file_name file)"
    unfolding sent_iff valid_iff t maxSize_def unsafe_name_iff by auto
  have b: "snd (photoApi_uploadPhoto post n roomId file uploaderName) = [] \<longrightarrow>
        (\<exists>e. fst (photoApi_uploadPhoto post n roomId file uploaderName) = Inl e \<and> response e = None)"
    by (simp add: photoApi_uploadPhoto_def Let_def Error_def)
  have c: "snd (photoApi_uploadPhoto post n roomId file uploaderName) \<noteq> [] \<longrightarrow>
        photoApi_uploadPhoto post n roomId file uploaderName
          = (post n \<lparr>request_room = roomId, request_file = file,
                      request_uploader_name = sanitizeInput uploaderName\<rparr>,
             [\<lparr>request_room = roomId, request_file = file,
               request_uploader_name = sanitizeInput uploaderName\<rparr>])"
    by (simp add: photoApi_uploadPhoto_def Let_def)
  from a b c show ?thesis by blast
qed

lemma png_safe: "\<not> unsafe_name (file_name (png 1))"
  by (simp add: unsafe_name_def png_def str_def)

lemma demo_user_clean: "sanitizeInput demo_user = demo_user"
  by (simp add: sanitizeInput_def demo_user_def str_def trim_def replace_all_def is_space_def)

text \<open>The file \<open>../a.png\<close> is rejected for the \<open>/\<close> in its name; the file \<open>1.png\<close> is
  sent, and the result is the answer to that request.\<close>

theorem upload_validation_witness:
  "47 \<in> set (file_name traversal_file)
   \<and> snd (photoApi_uploadPhoto demo_post 0 demo_room traversal_file demo_user) = []
   \<and> (\<exists>e. fst (photoApi_uploadPhoto demo_post 0 demo_room traversal_file demo_user) = Inl e
            \<and> response e = None)
   \<and> snd (photoApi_uploadPhoto demo_post 0 demo_room (png 1) demo_user) \<noteq> []
   \<and> photoApi_uploadPhoto demo_post 0 demo_room (png 1) demo_user
       = (Inr (demo_photo (str ''photo-0'') (png 1)),
          [\<lparr>request_room = demo_room, request_file = png 1, request_uploader_name = demo_user\<rparr>])"
proof -
  note t = upload_validation [of demo_post 0 demo_room traversal_file demo_user]
  note u = upload_validation [of demo_post 0 demo_room "png 1" demo_user]
  from t traversal_unsafe have a:
    "snd (photoApi_uploadPhoto demo_post 0 demo_room traversal_file demo_user) = []"
    "\<exists>e. fst (photoApi_uploadPhoto demo_post 0 demo_room traversal_file demo_user) = Inl e
            \<and> response e = None"
    by simp_all
  have "\<not> ((\<exists>us vs. file_name (png 1) = us @ str ''..'' @ vs) \<or> 47 \<in> set (file_name (png 1))
           \<or> 92 \<in> set (file_name (png 1)))"
    using png_safe unfolding unsafe_name_iff .
  moreover have "file_type (png 1) \<in> {str ''image/jpeg'', str ''image/jpg'', str ''image/png'',
                    str ''image/gif'', str ''image/webp''}" "\<not> file_size (png 1) > 10 * 1024 * 1024"
    by (simp_all add: png_def)
  ultimately have b: "snd (photoApi_uploadPhoto demo_post 0 demo_room (png 1) demo_user) \<noteq> []"
    using u demo_room_valid demo_user_valid by blast
  with u have "photoApi_uploadPhoto demo_post 0 demo_room (png 1) demo_user
          = (demo_post 0 \<lparr>request_room = demo_room, request_file = png 1,
                      request_uploader_name = sanitizeInput demo_user\<rparr>,
             [\<lparr>request_room = demo_room, request_file = png 1,
               request_uploader_name = sanitizeInput demo_user\<rparr>])"
    by blast
  then have c: "photoApi_uploadPhoto demo_post 0 demo_room (png 1) demo_user
       = (Inr (demo_photo (str ''photo-0'') (png 1)),
          [\<lparr>request_room = demo_room, request_file = png 1, request_uploader_name = demo_user\<rparr>])"
    unfolding demo_user_clean by (simp add: demo_post_def str_def)
  from traversal_unsafe a b c show ?thesis by (intro conjI)
qed

text \<open>
  Claim C10. A file whose name contains \<open>..\<close>, \<open>/\<close> or a backslash is rejected by
  \<open>validateInput.file\<close>, with the error \<open>Invalid filename.\<close> when its type and size are
  acceptable (an unacceptable type or size is reported first). \<open>processFiles\<close> never
  selects it, and \<open>photoApi.uploadPhoto\<close> throws for it without sending a request: the
  error \<open>Invalid filename.\<close> when the room id, the user name, the type and the size are
  acceptable.
\<close>

theorem unsafe_filename_rejected:
  assumes "(\<exists>us vs. file_name file = us @ str ''..'' @ vs) \<or> 47 \<in> set (file_name file)
           \<or> 92 \<in> set (file_name file)"
  shows "\<not> valid (validateInput_file file)
       \<and> (file_type file \<in> set allowedTypes \<and> file_size file \<le> 10 * 1024 * 1024
            \<longrightarrow> validateInput_file file = \<lparr>valid = False, error = Some (str ''Invalid filename.'')\<rparr>)
       \<and> file \<notin> set (fst (processFiles files))
       \<and> snd (photoApi_uploadPhoto post n roomId file uploaderName) = []
       \<and> (\<exists>e. fst (photoApi_uploadPhoto post n roomId file uploaderName) = Inl e \<and> response e = None)
       \<and> (validateInput_roomId roomId \<and> validateInput_userName uploaderName
            \<and> file_type file \<in> set allowedTypes \<and> file_size file \<le> 10 * 1024 * 1024
            \<longrightarrow> photoApi_uploadPhoto post n roomId file uploaderName
                  = (Inl (Error (str ''Invalid filename.'')), []))"
proof -
  from assms have u: "unsafe_name (file_name file)" by (simp add: unsafe_name_iff)
  then have nv: "\<not> valid (validateInput_file file)" by (simp add: valid_iff)
  have a: "file_type file \<in> set allowedTypes \<and> file_size file \<le> 10 * 1024 * 1024
            \<longrightarrow> validateInput_file file = \<lparr>valid = False, error = Some (str ''Invalid filename.'')\<rparr>"
    using u by (simp add: validateInput_file_cases maxSize_def)
  have b: "file \<notin> set (fst (processFiles files))"
    using nv by (simp add: processFiles_valid)
  have c: "snd (photoApi_uploadPhoto post n roomId file uploaderName) = []"
    using nv by (simp add: sent_iff)
  have d: "\<exists>e. fst (photoApi_uploadPhoto post n roomId file uploaderName) = Inl e \<and> response e = None"
    using nv by (simp add: photoApi_uploadPhoto_def Let_def Error_def)
  have e: "validateInput_roomId roomId \<and> validateInput_userName uploaderName
            \<and> file_type file \<in> set allowedTypes \<and> file_size file \<le> 10 * 1024 * 1024
            \<longrightarrow> photoApi_uploadPhoto post n roomId file uploaderName
                  = (Inl (Error (str ''Invalid filename.'')), [])"
    using u by (simp add: photoApi_uploadPhoto_def Let_def validateInput_file_cases maxSize_def Error_def or_else_def str_def)
  from nv a b c d e show ?thesis by blast
qed

text \<open>The file \<open>../a.png\<close> once more.\<close>

theorem unsafe_filename_rejected_witness:
  "((\<exists>us vs. file_name traversal_file = us @ str ''..'' @ vs) \<or> 47 \<in> set (file_name traversal_file)
      \<or> 92 \<in> set (file_name traversal_file))
   \<and> file_type traversal_file \<in> set allowedTypes \<and> file_size traversal_file \<le> 10 * 1024 * 1024
   \<and> validateInput_roomId demo_room \<and> validateInput_userName demo_user
   \<and> validateInput_file traversal_file = \<lparr>valid = False, error = Some (str ''Invalid filename.'')\<rparr>
   \<and> traversal_file \<notin> set (fst (processFiles [png 1, traversal_file]))
   \<and> photoApi_uploadPhoto demo_post 0 demo_room traversal_file demo_user
       = (Inl (Error (str ''Invalid filename.'')), [])"
proof -
  have h: "(\<exists>us vs. file_name traversal_file = us @ str ''..'' @ vs) \<or> 47 \<in> set (file_name traversal_file)
      \<or> 92 \<in> set (file_name traversal_file)"
    using traversal_unsafe by simp
  have a: "file_type traversal_file \<in> set allowedTypes" "file_size traversal_file \<le> 10 * 1024 * 1024"
    by (simp_all add: traversal_file_def allowedTypes_def str_def)
  note t = unsafe_filename_rejected [OF h, of "[png 1, traversal_file]" demo_post 0 demo_room demo_user]
  from t have "file_type traversal_file \<in> set allowedTypes \<and> file_size traversal_file \<le> 10 * 1024 * 1024
            \<longrightarrow> validateInput_file traversal_file = \<lparr>valid = False, error = Some (str ''Invalid filename.'')\<rparr>"
    by (elim conjE)
  with a have v: "validateInput_file traversal_file = \<lparr>valid = False, error = Some (str ''Invalid filename.'')\<rparr>"
    by blast
  from t have p: "traversal_file \<notin> set (fst (processFiles [png 1, traversal_file]))"
    by (elim conjE)
  from t have "validateInput_roomId demo_room \<and> validateInput_userName demo_user
            \<and> file_type traversal_file \<in> set allowedTypes \<and> file_size traversal_file \<le> 10 * 1024 * 1024
            \<longrightarrow> photoApi_uploadPhoto demo_post 0 demo_room traversal_file demo_user
                  = (Inl (Error (str ''Invalid filename.'')), [])"
    by (elim conjE)
  with a demo_room_valid demo_user_valid
  have u: "photoApi_uploadPhoto demo_post 0 demo_room traversal_file demo_user
                  = (Inl (Error (str ''Invalid filename.'')), [])"
    by blast
  from h a demo_room_valid demo_user_valid v p u show ?thesis
    by (intro conjI)
qed

section \<open>The delete button\<close>

text \<open>
  Claim C5 as stated fails: the button that deletes the room is shown to the user whose
  stored name is the hardcoded one and to no other, and a confirmed click on it sends the
  delete request.
\<close>

theorem delete_button_counterexample:
  "showDeleteButton (Some privileged_name) \<and> \<not> showDeleteButton (Some demo_user)
   \<and> \<not> showDeleteButton None
   \<and> handleDeleteRoom (\<lambda>rid. Inr ()) True (Some demo_room) True = (DeletedAlert, [demo_room])"
  using demo_room_valid
  by (simp add: showDeleteButton_def currentUserName_def privileged_name_def demo_user_def str_def
      handleDeleteRoom_def) (simp add: demo_room_def str_def)

text \<open>
  Claim C5, amended. The room page shows the button that deletes the room exactly when
  the stored user name equals the hardcoded name (the code units U+C774, U+C131, U+C77C);
  for every other stored name, and when none is stored, the button is not shown.
\<close>

theorem delete_button_by_name:
  "showDeleteButton stored \<longleftrightarrow> stored = Some privileged_name"
  by (cases stored) (simp_all add: showDeleteButton_def currentUserName_def privileged_name_def)

text \<open>The hardcoded name sees the button, \<open>kim\<close> does not.\<close>

theorem delete_button_by_name_witness:
  "showDeleteButton (Some [51060, 49457, 51068]) \<and> \<not> showDeleteButton (Some (str ''kim''))"
  using delete_button_by_name [of "Some [51060, 49457, 51068]"] delete_button_by_name [of "Some (str ''kim'')"]
  by (simp add: privileged_name_def str_def)

end
